theory Spec2Isabelle
  imports Main
begin

section \<open>House Points: a shallow embedding of script.js\<close>

text \<open>
  The program keeps one document in the browser's localStorage and the logged-in user in
  sessionStorage. Every handler loads the document, changes the loaded copy and writes it
  back with \<open>saveData\<close>. The model passes both stores explicitly.

  Modelling conventions.
  \<^item> A JavaScript number is an IEEE 754 double. The numbers of the program are integers,
    so a finite number is modelled by the mathematical integer (\<open>int\<close>) it is equal to;
    \<open>toDouble\<close> rounds an integer to the nearest double, and the sums that the program
    forms with \<open>+=\<close> and \<open>-=\<close> on points are rounded with it. The counters, which
    the program only increments from 1, and the angles of the wheel are integers far below
    \<open>2 ^ 53\<close> and are not rounded. Where a number comes from \<open>parseInt\<close> on a text,
    the type \<open>number\<close> adds the two infinities, and \<open>NaN\<close> is \<open>None\<close>.
  \<^item> A string is a list of characters; a character of the model is a UTF-16 code unit
    below 256 (the Latin-1 range), and \<open>trim\<close> and \<open>toLowerCase\<close> are modelled on that
    range. Text with other code units is outside the model.
  \<^item> \<open>null\<close> and \<open>undefined\<close> fields are \<open>None\<close>.
\<close>

subsection \<open>Strings\<close>

text \<open>
  The white space and line terminators of ECMAScript with a code below 256: TAB, LF, VT,
  FF, CR, SPACE and NO-BREAK SPACE.
\<close>

definition isSpace :: "char \<Rightarrow> bool" where
  "isSpace c = ((of_char c :: int) \<in> {9, 10, 11, 12, 13, 32, 160})"

definition isDigit :: "char \<Rightarrow> bool" where
  "isDigit c = (48 \<le> (of_char c :: int) \<and> (of_char c :: int) \<le> 57)"

text \<open>
  The lower-case form of a character: the letters \<open>A\<close> to \<open>Z\<close> and the Latin-1 capital
  letters 192 to 222 (without the multiplication sign 215) have one, 32 further on; every
  other code below 256 is its own lower-case form.
\<close>

definition lowerChar :: "char \<Rightarrow> char" where
  "lowerChar c =
     (if (65 \<le> (of_char c :: int) \<and> (of_char c :: int) \<le> 90)
         \<or> (192 \<le> (of_char c :: int) \<and> (of_char c :: int) \<le> 222 \<and> (of_char c :: int) \<noteq> 215)
      then char_of ((of_char c :: int) + 32) else c)"

text \<open>\<open>String.prototype.trim\<close> and \<open>String.prototype.toLowerCase\<close>.\<close>

definition trim :: "string \<Rightarrow> string" where
  "trim s = rev (dropWhile isSpace (rev (dropWhile isSpace s)))"

definition toLowerCase :: "string \<Rightarrow> string" where
  "toLowerCase s = map lowerChar s"

text \<open>\<open>s.startsWith(p)\<close>.\<close>

definition startsWith :: "string \<Rightarrow> string \<Rightarrow> bool" where
  "startsWith p s = (take (length p) s = p)"

subsection \<open>Numbers\<close>

text \<open>
  The double nearest to an integer. For \<open>n\<close> from \<open>2 ^ 53\<close> on, \<open>scale n\<close> is the power
  of two \<open>p\<close> for which \<open>n div p\<close> has exactly 53 bits; the doubles of that size are the
  multiples of \<open>p\<close>, and \<open>n\<close> is rounded to the nearest one, to the one with the even
  significand when it lies half way. Below \<open>2 ^ 53\<close> every integer is a double.
\<close>

function scale :: "int \<Rightarrow> int" where
  "scale n = (if n < 2 ^ 53 then 1 else 2 * scale (n div 2))"
  by pat_completeness auto
termination
  by (relation "measure nat") auto

declare scale.simps [simp del]

definition roundNearestEven :: "int \<Rightarrow> int" where
  "roundNearestEven n =
     (let p = scale n; q = n div p; r = n mod p
      in if 2 * r > p \<or> (2 * r = p \<and> odd q) then (q + 1) * p else q * p)"

definition toDouble :: "int \<Rightarrow> int" where
  "toDouble x = (if x < 0 then - roundNearestEven (- x) else roundNearestEven x)"

text \<open>The integers that are finite doubles.\<close>

definition isDouble :: "int \<Rightarrow> bool" where
  "isDouble x = (toDouble x = x \<and> \<bar>x\<bar> < 2 ^ 1024)"

text \<open>
  The value of a number: finite, or one of the infinities. \<open>toNumber n\<close> is the number
  for the mathematical value \<open>n \<ge> 0\<close>: the nearest double, \<open>Infinity\<close> when that is
  \<open>2 ^ 1024\<close> or more.
\<close>

datatype number = Finite int | Infinity | NegInfinity

fun negate :: "number \<Rightarrow> number" where
  "negate (Finite r) = Finite (- r)"
| "negate Infinity = NegInfinity"
| "negate NegInfinity = Infinity"

definition toNumber :: "int \<Rightarrow> number" where
  "toNumber n = (if toDouble n < 2 ^ 1024 then Finite (toDouble n) else Infinity)"

text \<open>\<open>a < b\<close> and \<open>a >= b\<close> for a count \<open>a\<close> and a number \<open>b\<close>.\<close>

fun lessNumber :: "int \<Rightarrow> number \<Rightarrow> bool" where
  "lessNumber a (Finite b) = (a < b)"
| "lessNumber a Infinity = True"
| "lessNumber a NegInfinity = False"

fun geqNumber :: "int \<Rightarrow> number \<Rightarrow> bool" where
  "geqNumber a (Finite b) = (a \<ge> b)"
| "geqNumber a Infinity = False"
| "geqNumber a NegInfinity = True"

subsection \<open>Numbers and their decimal text\<close>

definition digitVal :: "char \<Rightarrow> int" where
  "digitVal c = (of_char c :: int) - 48"

definition digitChar :: "int \<Rightarrow> char" where
  "digitChar d = char_of (48 + d)"

text \<open>The mathematical value of a string of decimal digits.\<close>

definition digitsValue :: "string \<Rightarrow> int" where
  "digitsValue v = foldl (\<lambda>n c. 10 * n + digitVal c) 0 v"

text \<open>
  \<open>parseInt(s, 10)\<close>: leading white space is skipped, a sign is read, and the longest
  run of decimal digits that follows is the value, rounded to a number. The result is
  \<open>None\<close> (\<open>NaN\<close>) when there is no digit. (The standard allows an implementation to
  read the digits after the 20th as zeros; the model, like the engines in use, rounds
  the exact value.)
\<close>

definition parseInt :: "string \<Rightarrow> number option" where
  "parseInt s =
     (let t = dropWhile isSpace s;
          neg = (take 1 t = ''-'');
          body = (if take 1 t = ''-'' \<or> take 1 t = ''+'' then tl t else t);
          ds = takeWhile isDigit body
      in if ds = [] then None
         else Some (if neg then negate (toNumber (digitsValue ds))
                    else toNumber (digitsValue ds)))"

function decimal :: "int \<Rightarrow> string" where
  "decimal n = (if n < 10 then [digitChar n] else decimal (n div 10) @ [digitChar (n mod 10)])"
  by pat_completeness auto
termination
  by (relation "measure nat") auto

declare decimal.simps [simp del]

definition stripZeros :: "string \<Rightarrow> string" where
  "stripZeros ds = rev (dropWhile (\<lambda>c. c = CHR ''0'') (rev ds))"

text \<open>
  \<open>String(x)\<close> for a number (ECMAScript \<open>Number::toString\<close>, radix 10) writes the
  decimal with the fewest significant digits that still rounds to the double \<open>x\<close>, the
  one nearest to \<open>x\<close> when there are several (the even one when two are equally near).
  \<open>shortestFrom x j\<close> looks for it among the multiples of \<open>10 ^ j\<close> next to \<open>x\<close>, then
  of \<open>10 ^ (j - 1)\<close> and so on; \<open>shortestDecimal x\<close> starts with one significant digit.
\<close>

fun shortestFrom :: "int \<Rightarrow> nat \<Rightarrow> int" where
  "shortestFrom x 0 = x"
| "shortestFrom x (Suc j) =
     (let m = 10 ^ Suc j; lo = (x div m) * m; hi = lo + m
      in if toDouble lo = x \<and> toDouble hi = x then
           (if x - lo < hi - x then lo
            else if hi - x < x - lo then hi
            else if even (x div m) then lo else hi)
         else if toDouble lo = x then lo
         else if toDouble hi = x then hi
         else shortestFrom x j)"

definition shortestDecimal :: "int \<Rightarrow> int" where
  "shortestDecimal x = shortestFrom x (length (decimal x) - 1)"

text \<open>
  The text of that decimal \<open>v\<close>: all its digits when \<open>v\<close> is below \<open>10 ^ 21\<close>, and from
  \<open>10 ^ 21\<close> on the exponent notation, the significant digits followed by \<open>e+\<close> and the
  decimal exponent.
\<close>

definition writeDigits :: "int \<Rightarrow> string" where
  "writeDigits v =
     (if v < 10 ^ 21 then decimal v
      else let ds = decimal v; s = stripZeros ds; e = decimal (int (length ds) - 1)
           in (if length s = 1 then s else hd s # CHR ''.'' # tl s) @ ''e+'' @ e)"

fun numberToString :: "number \<Rightarrow> string" where
  "numberToString (Finite x) =
     (if x < 0 then CHR ''-'' # writeDigits (shortestDecimal (- x))
      else writeDigits (shortestDecimal x))"
| "numberToString Infinity = ''Infinity''"
| "numberToString NegInfinity = ''-Infinity''"

subsection \<open>Grade normalisation\<close>

text \<open>
  The first match of \<open>/(k|kindergarten|\d+)/\<close> in \<open>s\<close>: the leftmost position where an
  alternative matches, the alternatives tried in the order written, \<open>\d+\<close> taking the
  longest run of digits.
\<close>

fun gradeMatch :: "string \<Rightarrow> string option" where
  "gradeMatch [] = None"
| "gradeMatch (c # cs) =
     (if startsWith ''k'' (c # cs) then Some ''k''
      else if startsWith ''kindergarten'' (c # cs) then Some ''kindergarten''
      else if isDigit c then Some (takeWhile isDigit (c # cs))
      else gradeMatch cs)"

text \<open>
  \<open>normalizeGrade\<close> (defined three times in the source, in \<open>renderAwardPoints\<close> twice and
  in \<open>renderManageStudents\<close>; on strings the three bodies agree: \<open>!g\<close> holds of the empty
  string only, which the other tests send to the empty string as well).
\<close>

definition normalizeGrade :: "string \<Rightarrow> string" where
  "normalizeGrade g =
     (if g = [] then []
      else let s = toLowerCase (trim g) in
        if s = ''k'' \<or> startsWith ''kind'' s then ''K''
        else case gradeMatch s of
               None \<Rightarrow> []
             | Some val \<Rightarrow>
                 if val = ''k'' \<or> val = ''kindergarten'' then ''K''
                 else (case parseInt val of
                         None \<Rightarrow> ''NaN''
                       | Some n \<Rightarrow> numberToString n))"

subsection \<open>The persisted document\<close>

text \<open>
  The records follow the object literals of \<open>initData\<close>, the add-house, add-student and
  create-teacher forms and \<open>submitAwardForm\<close>. A teacher's \<open>gradeAccess\<close> and
  \<open>accessibleStudentIds\<close> are \<open>None\<close> when the stored value is missing or not an array.
\<close>

record user =
  u_username :: string
  u_password :: string
  u_role :: string
  u_name :: "string option"
  u_houseId :: "int option"
  u_gradeAccess :: "string list option"
  u_accessibleStudentIds :: "int list option"

record house =
  h_id :: int
  h_name :: string
  h_color :: "string option"
  h_points :: int
  h_logo :: "string option"

record student =
  s_id :: int
  s_name :: string
  s_grade :: string
  s_houseId :: "int option"
  s_points :: int
  s_photo :: "string option"

record txn =
  t_id :: int
  t_timestamp :: string
  t_teacherUsername :: string
  t_studentId :: int
  t_houseId :: "int option"
  t_amount :: int
  t_note :: string

record reward =
  r_id :: int
  r_name :: string
  r_cost :: int

text \<open>
  \<open>houseLimits\<close> is the object that maps a house id to its capacity; a stored limit that
  is not a number (\<open>Math.max(0, parseInt(v, 10))\<close> is \<open>NaN\<close> for an input such as
  \<open>.5\<close>) is \<open>None\<close>.
\<close>

record document =
  users :: "user list"
  houses :: "house list"
  students :: "student list"
  transactions :: "txn list"
  rewards :: "reward list"
  houseLimits :: "(int \<times> int option) list"
  nextHouseId :: int
  nextStudentId :: int
  nextTransactionId :: int
  nextRewardId :: int

record state =
  localStorage :: document
  sessionStorage :: "user option"

definition initData :: document where
  "initData =
     \<lparr>users = [\<lparr>u_username = ''admin'', u_password = ''admin123'', u_role = ''admin'',
                 u_name = None, u_houseId = None, u_gradeAccess = None,
                 u_accessibleStudentIds = None\<rparr>],
      houses = [], students = [], transactions = [], rewards = [], houseLimits = [],
      nextHouseId = 1, nextStudentId = 1, nextTransactionId = 1, nextRewardId = 1\<rparr>"

text \<open>The body of the \<open>forEach\<close> in \<open>ensureSchema\<close>, for one user.\<close>

definition ensureUser :: "user \<Rightarrow> user" where
  "ensureUser u =
     (let u1 = (if u_role u = ''teacher'' \<and> u_accessibleStudentIds u = None
                then u\<lparr>u_accessibleStudentIds := Some []\<rparr> else u)
      in if u_role u1 = ''teacher'' \<and> u_gradeAccess u1 = None
         then u1\<lparr>u_gradeAccess := Some []\<rparr> else u1)"

definition ensureSchema :: "document \<Rightarrow> document" where
  "ensureSchema data = data\<lparr>users := map ensureUser (users data)\<rparr>"

text \<open>
  \<open>loadData\<close> parses the stored text and repairs the parsed copy; it does not write.
  \<open>saveData\<close> replaces the stored document.
\<close>

definition loadData :: "state \<Rightarrow> document" where
  "loadData st = ensureSchema (localStorage st)"

definition saveData :: "document \<Rightarrow> state \<Rightarrow> state" where
  "saveData data st = st\<lparr>localStorage := data\<rparr>"

definition setCurrentUser :: "user \<Rightarrow> state \<Rightarrow> state" where
  "setCurrentUser user st = st\<lparr>sessionStorage := Some user\<rparr>"

definition getCurrentUser :: "state \<Rightarrow> user option" where
  "getCurrentUser st = sessionStorage st"

subsection \<open>Arrays\<close>

text \<open>
  \<open>xs.find(p)\<close> is \<open>List.find\<close>. An object found in an array and then assigned to is
  changed in place: \<open>updateFirst p f xs\<close> applies \<open>f\<close> to the first element that
  satisfies \<open>p\<close>. \<open>findIndex\<close> gives the position of that element, \<open>None\<close> for \<open>-1\<close>.
\<close>

fun updateFirst :: "('a \<Rightarrow> bool) \<Rightarrow> ('a \<Rightarrow> 'a) \<Rightarrow> 'a list \<Rightarrow> 'a list" where
  "updateFirst p f [] = []"
| "updateFirst p f (x # xs) = (if p x then f x # xs else x # updateFirst p f xs)"

fun findIndex :: "('a \<Rightarrow> bool) \<Rightarrow> 'a list \<Rightarrow> nat option" where
  "findIndex p [] = None"
| "findIndex p (x # xs) =
     (if p x then Some 0 else map_option Suc (findIndex p xs))"

text \<open>\<open>xs.splice(idx, 1)\<close>.\<close>

definition splice1 :: "nat \<Rightarrow> 'a list \<Rightarrow> 'a list" where
  "splice1 idx xs = take idx xs @ drop (Suc idx) xs"

text \<open>\<open>data.houses.find(h => h.id === houseId)\<close>, where \<open>houseId\<close> may be \<open>null\<close>.\<close>

definition findHouse :: "house list \<Rightarrow> int option \<Rightarrow> house option" where
  "findHouse hs houseId =
     (case houseId of None \<Rightarrow> None | Some i \<Rightarrow> find (\<lambda>h. h_id h = i) hs)"

text \<open>
  \<open>house.points += amount\<close> and \<open>student.points += amount\<close> on the object found by its
  id; the sum of two doubles is the exact sum rounded to a double. \<open>-=\<close> is \<open>+=\<close> of the
  negated amount. Points are finite in the model: a sum of magnitude \<open>2 ^ 1024\<close> or more,
  which is an infinity in the program, is outside it.
\<close>

definition addHousePoints :: "int option \<Rightarrow> int \<Rightarrow> house list \<Rightarrow> house list" where
  "addHousePoints houseId amount hs =
     (case houseId of
        None \<Rightarrow> hs
      | Some i \<Rightarrow>
          updateFirst (\<lambda>h. h_id h = i) (\<lambda>h. h\<lparr>h_points := toDouble (h_points h + amount)\<rparr>) hs)"

definition addStudentPoints :: "int \<Rightarrow> int \<Rightarrow> student list \<Rightarrow> student list" where
  "addStudentPoints studentId amount ss =
     updateFirst (\<lambda>s. s_id s = studentId)
       (\<lambda>s. s\<lparr>s_points := toDouble (s_points s + amount)\<rparr>) ss"

subsection \<open>Login\<close>

text \<open>
  \<open>login\<close>: the first user whose lower-cased username equals the lower-cased, trimmed
  input and whose password equals the input becomes the current user; otherwise the alert
  is shown. The result is the alert text (\<open>None\<close> when the alert is hidden) and the state.
\<close>

definition login :: "string \<Rightarrow> string \<Rightarrow> state \<Rightarrow> string option \<times> state" where
  "login loginUsername loginPassword st =
     (let username = trim loginUsername;
          password = loginPassword;
          data = loadData st
      in case find (\<lambda>u. toLowerCase (u_username u) = toLowerCase username
                          \<and> u_password u = password) (users data) of
           Some user \<Rightarrow> (None, setCurrentUser user st)
         | None \<Rightarrow> (Some ''Invalid username or password'', st))"

subsection \<open>Awarding points and deleting a transaction\<close>

text \<open>
  How a handler can fail: an alert of class \<open>alert-danger\<close> with its text, an uncaught
  \<open>TypeError\<close> (a property read on \<open>undefined\<close> or \<open>null\<close>) or an uncaught
  \<open>ReferenceError\<close> (a variable that is not in scope).
\<close>

datatype failure = AlertDanger string | TypeError | ReferenceError

text \<open>
  \<open>submitAwardForm\<close>. \<open>studentId\<close> and \<open>amount\<close> are the results of \<open>parseInt\<close> on the
  selected option and on the number input (\<open>None\<close> for \<open>NaN\<close>; both are finite in the
  model); \<open>noteInput\<close> is the text of the textarea, \<open>mode\<close> the form's \<open>data-mode\<close> and
  \<open>now\<close> the time stamp.
  The changes are made to the loaded copy; only \<open>saveData\<close> at the end stores them, so
  a \<open>TypeError\<close> before it leaves the store as it was.
\<close>

text \<open>Line 515: \<open>if (mode === 'take' && amount > 0) amount = -amount\<close>.\<close>

definition signedAmount :: "string \<Rightarrow> int \<Rightarrow> int" where
  "signedAmount mode amount0 = (if mode = ''take'' \<and> amount0 > 0 then - amount0 else amount0)"

definition submitAwardForm ::
  "int option \<Rightarrow> int option \<Rightarrow> string \<Rightarrow> string \<Rightarrow> string \<Rightarrow> state \<Rightarrow> (failure + txn) \<times> state" where
  "submitAwardForm studentId amountInput noteInput mode now st =
     (let note = trim noteInput in
      case (studentId, amountInput) of
        (Some sid, Some amount0) \<Rightarrow>
          if sid = 0 then
            (Inl (AlertDanger ''Please select a student and enter a points value.''), st)
          else if note = [] then (Inl (AlertDanger ''A reason is required.''), st)
          else
            let amount = signedAmount mode amount0;
                data = loadData st
            in (case find (\<lambda>s. s_id s = sid) (students data) of
                  None \<Rightarrow> (Inl TypeError, st)
                | Some student \<Rightarrow>
                    let house = findHouse (houses data) (s_houseId student);
                        students' = addStudentPoints sid amount (students data);
                        houses' = addHousePoints (map_option h_id house) amount (houses data)
                    in (case getCurrentUser st of
                          None \<Rightarrow> (Inl TypeError, st)
                        | Some currentUser \<Rightarrow>
                            let txn = \<lparr>t_id = nextTransactionId data, t_timestamp = now,
                                       t_teacherUsername = u_username currentUser,
                                       t_studentId = s_id student,
                                       t_houseId = map_option h_id house,
                                       t_amount = amount, t_note = note\<rparr>;
                                data' = data\<lparr>students := students', houses := houses',
                                             nextTransactionId := nextTransactionId data + 1,
                                             transactions := transactions data @ [txn]\<rparr>
                            in (Inr txn, saveData data' st)))
      | _ \<Rightarrow> (Inl (AlertDanger ''Please select a student and enter a points value.''), st))"

text \<open>\<open>deleteTransaction\<close>: the returned boolean and the new state.\<close>

definition deleteTransaction :: "int \<Rightarrow> state \<Rightarrow> bool \<times> state" where
  "deleteTransaction txnId st =
     (let data = loadData st in
      case findIndex (\<lambda>t. t_id t = txnId) (transactions data) of
        None \<Rightarrow> (False, st)
      | Some idx \<Rightarrow>
          let txn = transactions data ! idx;
              students' = addStudentPoints (t_studentId txn) (- t_amount txn) (students data);
              houses' = addHousePoints (t_houseId txn) (- t_amount txn) (houses data);
              data' = data\<lparr>students := students', houses := houses',
                           transactions := splice1 idx (transactions data)\<rparr>
          in (True, saveData data' st))"

subsection \<open>The award form's student lists\<close>

text \<open>
  \<open>renderAwardPoints\<close> builds the \<open>select\<close> elements a user picks a student from. For a
  teacher: one list per normalised grade of \<open>gradeAccess\<close> when there are several
  grades, one list for all of them otherwise. The branch for any other user appends a
  variable \<open>label\<close> that is not in scope there, so it ends in a \<open>ReferenceError\<close> before
  the form is put on the page (the navigation offers the award tab to teachers only).
  Nothing is rendered when there are no students. The result is the list of option lists.
\<close>

definition awardDropdowns :: "user option \<Rightarrow> document \<Rightarrow> failure + student list list" where
  "awardDropdowns currentUser data =
     (if students data = [] then Inr []
      else case currentUser of
        None \<Rightarrow> Inl ReferenceError
      | Some u \<Rightarrow>
          if u_role u = ''teacher'' then
            let access = (case u_gradeAccess u of
                            Some gs \<Rightarrow> map normalizeGrade gs | None \<Rightarrow> [])
            in if length access > 1
               then Inr (map (\<lambda>gr. filter (\<lambda>stu. normalizeGrade (s_grade stu) = gr)
                                      (students data)) access)
               else Inr [filter (\<lambda>stu. normalizeGrade (s_grade stu) \<in> set access)
                           (students data)]
          else Inl ReferenceError)"

text \<open>The students a user can select on the award form, in the order of the page.\<close>

definition selectableStudents :: "user option \<Rightarrow> document \<Rightarrow> student list" where
  "selectableStudents currentUser data =
     (case awardDropdowns currentUser data of Inl e \<Rightarrow> [] | Inr selects \<Rightarrow> concat selects)"

subsection \<open>Adding a house and a student, deleting a student\<close>

text \<open>
  The submit handler of the add-house form: the alert text, if any, and the state.
  \<open>logoData\<close> is the data URL of the chosen file, \<open>None\<close> without a file.
\<close>

definition addHouse :: "string \<Rightarrow> string \<Rightarrow> string option \<Rightarrow> state \<Rightarrow> string option \<times> state" where
  "addHouse houseName houseColor logoData st =
     (let name = trim houseName; color = trim houseColor; data = loadData st in
      if name = [] then (None, st)
      else if find (\<lambda>h. toLowerCase (h_name h) = toLowerCase name) (houses data) \<noteq> None
      then (Some ''House name already exists'', st)
      else
        let house = \<lparr>h_id = nextHouseId data, h_name = name,
                     h_color = (if color = [] then None else Some color),
                     h_points = 0,
                     h_logo = (case logoData of
                                 None \<Rightarrow> None | Some l \<Rightarrow> if l = [] then None else Some l)\<rparr>
        in (None, saveData (data\<lparr>nextHouseId := nextHouseId data + 1,
                                  houses := houses data @ [house]\<rparr>) st))"

text \<open>
  The submit handler of the add-student form; \<open>studentHouse\<close> is the selected house id,
  \<open>None\<close> for the option \<open>Unassigned\<close>.
\<close>

definition addStudent :: "string \<Rightarrow> string \<Rightarrow> int option \<Rightarrow> state \<Rightarrow> state" where
  "addStudent studentName studentGrade studentHouse st =
     (let name = trim studentName; grade = trim studentGrade; data = loadData st in
      if name = [] then st
      else
        let student = \<lparr>s_id = nextStudentId data, s_name = name, s_grade = grade,
                       s_houseId = studentHouse, s_points = 0, s_photo = None\<rparr>
        in saveData (data\<lparr>nextStudentId := nextStudentId data + 1,
                           students := students data @ [student]\<rparr>) st)"

text \<open>The confirmed \<open>Delete\<close> button of a student row.\<close>

definition deleteStudent :: "int \<Rightarrow> state \<Rightarrow> state" where
  "deleteStudent studentId st =
     (let data = loadData st in
      case find (\<lambda>s. s_id s = studentId) (students data) of
        None \<Rightarrow> st
      | Some student \<Rightarrow>
          let house = findHouse (houses data) (s_houseId student);
              houses' = addHousePoints (map_option h_id house) (- s_points student) (houses data)
          in saveData (data\<lparr>houses := houses',
                             students := filter (\<lambda>s. s_id s \<noteq> s_id student) (students data)\<rparr>) st)"

subsection \<open>The sorting wheel\<close>

definition nameMapping :: "string list" where
  "nameMapping = [''Darwin'', ''Curie'', ''Hippocretes'', ''Newton'']"

text \<open>
  The segment under the pointer for a rotation of \<open>angle\<close> degrees:
  \<open>Math.floor(((360 - (angle % 360)) % 360) / (360 / 4))\<close>. Angles are never negative.
\<close>

definition segmentIndex :: "int \<Rightarrow> int" where
  "segmentIndex angle = ((360 - angle mod 360) mod 360) div (360 div 4)"

definition findHouseByName :: "house list \<Rightarrow> string \<Rightarrow> house option" where
  "findHouseByName hs nm = find (\<lambda>h. toLowerCase (h_name h) = toLowerCase nm) hs"

text \<open>The house selected by the first spin, lines 1627 to 1643.\<close>

definition resolveHouse :: "house list \<Rightarrow> int \<Rightarrow> house option" where
  "resolveHouse hs finalAngle =
     (let index = segmentIndex finalAngle;
          desiredName = nameMapping ! nat (index mod int (length nameMapping))
      in case findHouseByName hs desiredName of
           Some h \<Rightarrow> Some h
         | None \<Rightarrow>
             if length hs > 0 then Some (hs ! nat (index mod int (length hs))) else None)"

text \<open>
  \<open>getLimit\<close> is \<open>None\<close> where the source gives \<open>null\<close> (no limit is stored for the
  house) and \<open>Some None\<close> where it gives \<open>NaN\<close>. A stored limit is read with
  \<open>parseInt(stored, 10)\<close>, that is, from the text of the stored value: \<open>null\<close> for a
  stored \<open>NaN\<close>, the text of the number otherwise. \<open>getCount\<close> and \<open>isEligible\<close> as in
  the source.
\<close>

definition getLimit :: "document \<Rightarrow> int \<Rightarrow> number option option" where
  "getLimit data hid =
     (case map_of (houseLimits data) hid of
        None \<Rightarrow> None
      | Some stored \<Rightarrow>
          Some (case stored of
                  None \<Rightarrow> parseInt ''null''
                | Some l \<Rightarrow> parseInt (numberToString (Finite l))))"

definition getCount :: "document \<Rightarrow> int \<Rightarrow> int" where
  "getCount data hid = int (length (filter (\<lambda>s. s_houseId s = Some hid) (students data)))"

definition isEligible :: "document \<Rightarrow> int \<Rightarrow> bool" where
  "isEligible data hid =
     (case getLimit data hid of
        None \<Rightarrow> True
      | Some None \<Rightarrow> True
      | Some (Some lim) \<Rightarrow> lessNumber (getCount data hid) lim)"

definition maxAttempts :: nat where
  "maxAttempts = 20"

text \<open>
  The \<open>while\<close> loop that spins again while the selected house is full. \<open>redraw i\<close> is
  the pair \<open>(spins2, randAngle2)\<close> that the two calls of \<open>Math.random\<close> give in round
  \<open>i\<close>. The result is the selected house, the cumulative angle and the number of rounds.
\<close>

function respin ::
  "document \<Rightarrow> (nat \<Rightarrow> int \<times> int) \<Rightarrow> nat \<Rightarrow> int \<Rightarrow> house option \<Rightarrow> house option \<times> int \<times> nat" where
  "respin data redraw attempts baseAngle selectedHouse =
     (case selectedHouse of
        None \<Rightarrow> (None, baseAngle, attempts)
      | Some h \<Rightarrow>
          if \<not> isEligible data (h_id h) \<and> attempts < maxAttempts then
            let delta = fst (redraw attempts) * 360 + snd (redraw attempts);
                baseAngle' = baseAngle + delta;
                index2 = segmentIndex baseAngle';
                selectedHouse' =
                  (if length nameMapping = 4 then
                     (case findHouseByName (houses data) (nameMapping ! nat (index2 mod 4)) of
                        Some house2 \<Rightarrow> house2 | None \<Rightarrow> h)
                   else if nat (index2 mod int (length (houses data))) < length (houses data)
                     then houses data ! nat (index2 mod int (length (houses data)))
                     else h)
            in respin data redraw (Suc attempts) baseAngle' (Some selectedHouse')
          else (Some h, baseAngle, attempts))"
  by pat_completeness auto
termination
  by (relation "measure (\<lambda>(data, redraw, attempts, baseAngle, selectedHouse). maxAttempts - attempts)")
    auto

declare respin.simps [simp del]

text \<open>
  The house selected when the loop ends, for a first spin of \<open>spins\<close> full rotations and
  \<open>randAngle\<close> degrees, and the number of rounds the loop made.
\<close>

definition spinSelected :: "int \<Rightarrow> int \<Rightarrow> (nat \<Rightarrow> int \<times> int) \<Rightarrow> document \<Rightarrow> house option" where
  "spinSelected spins randAngle redraw data =
     fst (respin data redraw 0 (spins * 360 + randAngle)
            (resolveHouse (houses data) (spins * 360 + randAngle)))"

definition spinAttempts :: "int \<Rightarrow> int \<Rightarrow> (nat \<Rightarrow> int \<times> int) \<Rightarrow> document \<Rightarrow> nat" where
  "spinAttempts spins randAngle redraw data =
     snd (snd (respin data redraw 0 (spins * 360 + randAngle)
                 (resolveHouse (houses data) (spins * 360 + randAngle))))"

text \<open>
  The click on \<open>Spin Wheel\<close> followed by the \<open>transitionend\<close> handler. \<open>spins\<close> and
  \<open>randAngle\<close> are the first two random draws, \<open>selectStu\<close> the parsed value of the
  student \<open>select\<close>. The wheel is rendered for an administrator only, and only when there
  are houses and students. The result is the text of the result line, which the click
  empties, and the state. In the branch for a full house the source spins the image once
  more and returns; it writes no text and stores nothing.
\<close>

definition spinWheel ::
  "int \<Rightarrow> int \<Rightarrow> (nat \<Rightarrow> int \<times> int) \<Rightarrow> int option \<Rightarrow> state \<Rightarrow> string \<times> state" where
  "spinWheel spins randAngle redraw selectStu st =
     (let data = loadData st in
      case getCurrentUser st of
        None \<Rightarrow> ([], st)
      | Some currentUser \<Rightarrow>
          if u_role currentUser \<noteq> ''admin'' then ([], st)
          else if houses data = [] \<or> students data = [] then ([], st)
          else
            let student = (case selectStu of
                             None \<Rightarrow> None
                           | Some sid \<Rightarrow> find (\<lambda>s. s_id s = sid) (students data));
                selectedHouse = spinSelected spins randAngle redraw data
            in (case (selectedHouse, student) of
                 (Some h, Some stu) \<Rightarrow>
                   (if (case getLimit data (h_id h) of
                          None \<Rightarrow> False
                        | Some None \<Rightarrow> False
                        | Some (Some lim) \<Rightarrow> geqNumber (getCount data (h_id h)) lim)
                    then ([], st)
                    else (s_name stu @ '' sorted into '' @ h_name h @ ''!'',
                          saveData
                            (data\<lparr>students :=
                               updateFirst (\<lambda>s. s_id s = s_id stu)
                                 (\<lambda>s. s\<lparr>s_houseId := Some (h_id h)\<rparr>) (students data)\<rparr>)
                            st))
               | _ \<Rightarrow> ([], st)))"

subsection \<open>The balance invariants\<close>

text \<open>
  The two balances of the specification: a student's points are the sum of the amounts
  of the ledger entries for that student, and a house's points are the sum of the points
  of the students assigned to it.
\<close>

definition ledgerSum :: "document \<Rightarrow> int \<Rightarrow> int" where
  "ledgerSum d sid = sum_list (map t_amount (filter (\<lambda>t. t_studentId t = sid) (transactions d)))"

definition memberPoints :: "document \<Rightarrow> int \<Rightarrow> int" where
  "memberPoints d hid =
     sum_list (map s_points (filter (\<lambda>s. s_houseId s = Some hid) (students d)))"

definition studentsBalanced :: "document \<Rightarrow> bool" where
  "studentsBalanced d = list_all (\<lambda>s. s_points s = ledgerSum d (s_id s)) (students d)"

definition housesBalanced :: "document \<Rightarrow> bool" where
  "housesBalanced d = list_all (\<lambda>h. h_points h = memberPoints d (h_id h)) (houses d)"

text \<open>
  The counters are ahead of every identifier in use: what \<open>initData\<close> establishes and
  the handlers keep, since identifiers are only ever taken from the counters.
  \<open>houseKnown n houseId\<close> says that a house reference is \<open>null\<close> or below the counter.
\<close>

definition houseKnown :: "int \<Rightarrow> int option \<Rightarrow> bool" where
  "houseKnown n houseId = (case houseId of None \<Rightarrow> True | Some i \<Rightarrow> i < n)"

definition countersAhead :: "document \<Rightarrow> bool" where
  "countersAhead d =
     (list_all (\<lambda>t. t_id t < nextTransactionId d \<and> t_studentId t < nextStudentId d)
        (transactions d)
      \<and> list_all (\<lambda>s. s_id s < nextStudentId d \<and> houseKnown (nextHouseId d) (s_houseId s))
          (students d)
      \<and> list_all (\<lambda>h. h_id h < nextHouseId d) (houses d))"

subsection \<open>Example documents\<close>

text \<open>
  A store written by an older version: a teacher record without \<open>gradeAccess\<close> and
  \<open>accessibleStudentIds\<close>, next to the administrator of \<open>initData\<close>. Nobody is logged in.
\<close>

definition legacyTeacher :: user where
  "legacyTeacher =
     \<lparr>u_username = ''mrsmith'', u_password = ''Pw1'', u_role = ''teacher'',
      u_name = Some ''Mr Smith'', u_houseId = Some 1, u_gradeAccess = None,
      u_accessibleStudentIds = None\<rparr>"

definition legacyState :: state where
  "legacyState =
     \<lparr>localStorage = initData\<lparr>users := users initData @ [legacyTeacher]\<rparr>,
      sessionStorage = None\<rparr>"

text \<open>
  A small school: the houses Curie and Darwin, the student Ann of Curie with the 5 points
  of one ledger entry, and the administrator logged in.
\<close>

definition curie :: house where
  "curie = \<lparr>h_id = 1, h_name = ''Curie'', h_color = None, h_points = 5, h_logo = None\<rparr>"

definition darwin :: house where
  "darwin = \<lparr>h_id = 2, h_name = ''Darwin'', h_color = None, h_points = 0, h_logo = None\<rparr>"

definition ann :: student where
  "ann = \<lparr>s_id = 1, s_name = ''Ann'', s_grade = ''2nd Grade'', s_houseId = Some 1,
           s_points = 5, s_photo = None\<rparr>"

definition annAward :: txn where
  "annAward =
     \<lparr>t_id = 1, t_timestamp = ''2024-01-01T00:00:00.000Z'', t_teacherUsername = ''admin'',
      t_studentId = 1, t_houseId = Some 1, t_amount = 5, t_note = ''helping''\<rparr>"

definition schoolState :: state where
  "schoolState =
     \<lparr>localStorage = initData\<lparr>houses := [curie, darwin], students := [ann],
                                transactions := [annAward], nextHouseId := 3,
                                nextStudentId := 2, nextTransactionId := 2\<rparr>,
      sessionStorage = Some (hd (users initData))\<rparr>"

text \<open>
  The teacher and the three students of the specification's access example: grade access
  to grade 2 and an explicit grant for student 7.
\<close>

definition gradeTeacher :: user where
  "gradeTeacher =
     \<lparr>u_username = ''msjones'', u_password = ''pw'', u_role = ''teacher'',
      u_name = Some ''Ms Jones'', u_houseId = Some 1, u_gradeAccess = Some [''2''],
      u_accessibleStudentIds = Some [7]\<rparr>"

definition threeStudents :: document where
  "threeStudents =
     initData\<lparr>students :=
       [\<lparr>s_id = 1, s_name = ''Ann'', s_grade = ''2nd Grade'', s_houseId = None,
         s_points = 0, s_photo = None\<rparr>,
        \<lparr>s_id = 7, s_name = ''Bob'', s_grade = ''5'', s_houseId = None,
         s_points = 0, s_photo = None\<rparr>,
        \<lparr>s_id = 9, s_name = ''Cyd'', s_grade = ''3'', s_houseId = None,
         s_points = 0, s_photo = None\<rparr>],
       nextStudentId := 10\<rparr>"

text \<open>
  A school whose only house, Darwin, has a capacity of one student and holds Cyd; Bob is
  not assigned yet. The administrator is logged in. Every redraw of \<open>sameSegment\<close> is one
  full rotation, so the wheel stops on the same segment each time.
\<close>

definition cappedState :: state where
  "cappedState =
     \<lparr>localStorage = initData\<lparr>houses := [darwin],
        students := [\<lparr>s_id = 1, s_name = ''Cyd'', s_grade = ''3'', s_houseId = Some 2,
                      s_points = 0, s_photo = None\<rparr>,
                     \<lparr>s_id = 2, s_name = ''Bob'', s_grade = ''5'', s_houseId = None,
                      s_points = 0, s_photo = None\<rparr>],
        houseLimits := [(2, Some 1)], nextHouseId := 3, nextStudentId := 3\<rparr>,
      sessionStorage = Some (hd (users initData))\<rparr>"

definition sameSegment :: "nat \<Rightarrow> int \<times> int" where
  "sameSegment i = (1, 0)"

text \<open>
  The small school as a teacher sees it: Ms Jones, who has access to grade 2 and so to
  Ann, is a stored user and is logged in, and the ledger entry for Ann was posted by her.
\<close>

definition classTeacher :: user where
  "classTeacher =
     \<lparr>u_username = ''msjones'', u_password = ''pw'', u_role = ''teacher'',
      u_name = Some ''Ms Jones'', u_houseId = Some 1, u_gradeAccess = Some [''2''],
      u_accessibleStudentIds = Some []\<rparr>"

definition jonesAward :: txn where
  "jonesAward =
     \<lparr>t_id = 1, t_timestamp = ''2024-01-01T00:00:00.000Z'', t_teacherUsername = ''msjones'',
      t_studentId = 1, t_houseId = Some 1, t_amount = 5, t_note = ''helping''\<rparr>"

definition teacherState :: state where
  "teacherState =
     \<lparr>localStorage = initData\<lparr>users := users initData @ [classTeacher],
        houses := [curie, darwin], students := [ann], transactions := [jonesAward],
        nextHouseId := 3, nextStudentId := 2, nextTransactionId := 2\<rparr>,
      sessionStorage = Some classTeacher\<rparr>"

text \<open>
  A school with the houses Curie and Darwin in which Darwin has a capacity of one student
  and holds Cyd; Ann is in Curie, with the 5 points Ms Jones gave her, and Bob is not
  assigned yet. The administrator is logged in. Every redraw of \<open>toCurie\<close> is one full
  rotation and 200 degrees.
\<close>

definition cyd :: student where
  "cyd = \<lparr>s_id = 2, s_name = ''Cyd'', s_grade = ''3'', s_houseId = Some 2,
           s_points = 0, s_photo = None\<rparr>"

definition bob :: student where
  "bob = \<lparr>s_id = 3, s_name = ''Bob'', s_grade = ''5'', s_houseId = None,
           s_points = 0, s_photo = None\<rparr>"

definition fullDarwinState :: state where
  "fullDarwinState =
     \<lparr>localStorage = initData\<lparr>users := users initData @ [classTeacher],
        houses := [curie, darwin], students := [ann, cyd, bob],
        transactions := [jonesAward], houseLimits := [(2, Some 1)], nextHouseId := 3,
        nextStudentId := 4, nextTransactionId := 2\<rparr>,
      sessionStorage = Some (hd (users initData))\<rparr>"

definition toCurie :: "nat \<Rightarrow> int \<times> int" where
  "toCurie i = (1, 200)"

text \<open>
  A store with a user whose name begins with the Latin-1 letter E acute (code 201, lower
  case 233). Nobody is logged in.
\<close>

definition eva :: user where
  "eva =
     \<lparr>u_username = [CHR 0xC9, CHR ''v'', CHR ''a''], u_password = ''s3cret'',
      u_role = ''teacher'', u_name = None, u_houseId = None, u_gradeAccess = Some [''1''],
      u_accessibleStudentIds = Some []\<rparr>"

definition evaState :: state where
  "evaState =
     \<lparr>localStorage = initData\<lparr>users := users initData @ [eva]\<rparr>, sessionStorage = None\<rparr>"

section \<open>Properties\<close>

subsection \<open>Rounding to a double\<close>

lemma scale_pos: "0 < scale n"
  by (induction n rule: scale.induct) (subst scale.simps, simp)

lemma scale_small: "n < 2 ^ 53 \<Longrightarrow> scale n = 1"
  by (subst scale.simps) simp

lemma scale_div_less: "0 \<le> n \<Longrightarrow> n div scale n < 2 ^ 53"
proof (induction n rule: scale.induct)
  case (1 n)
  show ?case
  proof (cases "n < 2 ^ 53")
    case True
    then show ?thesis by (simp add: scale_small)
  next
    case False
    then have s: "scale n = 2 * scale (n div 2)" by (subst scale.simps) simp
    have "0 \<le> n div 2" using 1(2) by simp
    with 1(1)[OF False] have "n div 2 div scale (n div 2) < 2 ^ 53" by simp
    moreover have "n div (2 * scale (n div 2)) = n div 2 div scale (n div 2)"
      using scale_pos[of "n div 2"] by (simp add: zdiv_zmult2_eq)
    ultimately show ?thesis by (simp add: s)
  qed
qed

lemma scale_div_ge: "2 ^ 53 \<le> n \<Longrightarrow> 2 ^ 52 \<le> n div scale n"
proof (induction n rule: scale.induct)
  case (1 n)
  from 1(2) have nl: "\<not> n < 2 ^ 53" by simp
  then have s: "scale n = 2 * scale (n div 2)" by (subst scale.simps) simp
  have d: "n div (2 * scale (n div 2)) = n div 2 div scale (n div 2)"
    using scale_pos[of "n div 2"] by (simp add: zdiv_zmult2_eq)
  show ?case
  proof (cases "2 ^ 53 \<le> n div 2")
    case True
    with 1(1)[OF nl] show ?thesis by (simp add: s d)
  next
    case False
    then have "scale (n div 2) = 1" by (simp add: scale_small)
    moreover have "2 ^ 52 \<le> n div 2" using 1(2) by simp
    ultimately show ?thesis by (simp add: s)
  qed
qed

lemma scale_mult: "2 ^ 52 \<le> q \<Longrightarrow> q < 2 ^ 53 \<Longrightarrow> scale (q * 2 ^ e) = 2 ^ e"
proof (induction e)
  case 0
  then show ?case by (simp add: scale_small)
next
  case (Suc e)
  have "1 \<le> (2::int) ^ e" by simp
  moreover have "0 \<le> q" using Suc(2) by simp
  ultimately have "q * 1 \<le> q * 2 ^ e" by (rule mult_left_mono)
  then have A: "q \<le> q * 2 ^ e" by simp
  have B: "2 ^ 52 \<le> q * 2 ^ e" using A Suc(2) by linarith
  have eq: "q * 2 ^ Suc e = 2 * (q * 2 ^ e)" by simp
  have "2 ^ 53 \<le> 2 * (q * 2 ^ e)" using B by simp
  then have "2 ^ 53 \<le> q * 2 ^ Suc e" by (simp only: eq)
  then have "scale (q * 2 ^ Suc e) = 2 * scale (q * 2 ^ Suc e div 2)"
    by (subst scale.simps) simp
  moreover have "q * 2 ^ Suc e div 2 = q * 2 ^ e" by simp
  ultimately show ?case using Suc by simp
qed

lemma scale_power: "\<exists>e. scale n = 2 ^ e"
proof (induction n rule: scale.induct)
  case (1 n)
  show ?case
  proof (cases "n < 2 ^ 53")
    case True
    then have "scale n = 2 ^ 0" by (simp add: scale_small)
    then show ?thesis by blast
  next
    case False
    then have s: "scale n = 2 * scale (n div 2)" by (subst scale.simps) simp
    from 1[OF False] obtain e where "scale (n div 2) = 2 ^ e" by blast
    with s have "scale n = 2 ^ Suc e" by simp
    then show ?thesis by blast
  qed
qed

lemma roundNearestEven_small: "n < 2 ^ 53 \<Longrightarrow> roundNearestEven n = n"
  by (simp add: roundNearestEven_def scale_small)

lemma roundNearestEven_nonneg: "0 \<le> n \<Longrightarrow> 0 \<le> roundNearestEven n"
proof -
  assume n: "0 \<le> n"
  have p: "0 < scale n" by (rule scale_pos)
  then have "0 \<le> n div scale n" using n by (simp add: pos_imp_zdiv_nonneg_iff)
  then show ?thesis using p by (simp add: roundNearestEven_def Let_def)
qed

lemma roundNearestEven_exact:
  assumes q: "2 ^ 52 \<le> q" "q \<le> 2 ^ 53"
  shows "roundNearestEven (q * 2 ^ e) = q * 2 ^ e"
proof (cases "q < 2 ^ 53")
  case True
  have s: "scale (q * 2 ^ e) = 2 ^ e" using q(1) True by (rule scale_mult)
  show ?thesis by (simp add: roundNearestEven_def s)
next
  case False
  with q have qe: "q = 2 ^ 53" by simp
  have "scale (2 ^ 52 * 2 ^ Suc e) = 2 ^ Suc e" by (rule scale_mult) simp_all
  moreover have e: "q * 2 ^ e = 2 ^ 52 * 2 ^ Suc e" by (simp add: qe)
  ultimately have s: "scale (q * 2 ^ e) = 2 ^ Suc e" by simp
  have "roundNearestEven (2 ^ 52 * 2 ^ Suc e) = 2 ^ 52 * 2 ^ Suc e"
    using s unfolding e by (simp add: roundNearestEven_def)
  then show ?thesis unfolding e .
qed

lemma roundNearestEven_idem:
  assumes "0 \<le> n"
  shows "roundNearestEven (roundNearestEven n) = roundNearestEven n"
proof (cases "n < 2 ^ 53")
  case True
  then show ?thesis by (simp add: roundNearestEven_small)
next
  case False
  then have ge: "2 ^ 53 \<le> n" by simp
  obtain e where e: "scale n = 2 ^ e" using scale_power[of n] by blast
  define q where "q = n div scale n"
  have q: "2 ^ 52 \<le> q" "q < 2 ^ 53"
    using scale_div_ge[OF ge] scale_div_less[OF assms] by (simp_all add: q_def)
  have "roundNearestEven n = q * 2 ^ e \<or> roundNearestEven n = (q + 1) * 2 ^ e"
    by (simp add: roundNearestEven_def Let_def q_def e)
  then show ?thesis
  proof
    assume r: "roundNearestEven n = q * 2 ^ e"
    show ?thesis unfolding r by (rule roundNearestEven_exact) (use q in simp_all)
  next
    assume r: "roundNearestEven n = (q + 1) * 2 ^ e"
    show ?thesis unfolding r by (rule roundNearestEven_exact) (use q in simp_all)
  qed
qed

lemma toDouble_idem: "toDouble (toDouble x) = toDouble x"
proof (cases "x < 0")
  case False
  then have "0 \<le> roundNearestEven x" by (simp add: roundNearestEven_nonneg)
  with False show ?thesis by (simp add: toDouble_def roundNearestEven_idem)
next
  case True
  then have n: "0 \<le> roundNearestEven (- x)" by (simp add: roundNearestEven_nonneg)
  show ?thesis
  proof (cases "roundNearestEven (- x) = 0")
    case z: True
    with True show ?thesis by (simp add: toDouble_def roundNearestEven_small)
  next
    case False
    with n have "0 < roundNearestEven (- x)" by simp
    with True show ?thesis by (simp add: toDouble_def roundNearestEven_idem)
  qed
qed

lemma toDouble_nonneg: "0 \<le> x \<Longrightarrow> 0 \<le> toDouble x"
  by (simp add: toDouble_def roundNearestEven_nonneg)

lemma roundNearestEven_2_53: "roundNearestEven (2 ^ 53) = 2 ^ 53"
  using roundNearestEven_exact[of "2 ^ 53" 0] by simp

lemma toDouble_exact: "\<bar>x\<bar> \<le> 2 ^ 53 \<Longrightarrow> toDouble x = x"
proof -
  assume a: "\<bar>x\<bar> \<le> 2 ^ 53"
  have r: "roundNearestEven y = y" if "0 \<le> y" "y \<le> 2 ^ 53" for y
  proof (cases "y = 2 ^ 53")
    case True
    then show ?thesis using roundNearestEven_2_53 by simp
  next
    case False
    with that have "y < 2 ^ 53" by simp
    then show ?thesis by (rule roundNearestEven_small)
  qed
  show ?thesis
  proof (cases "x < 0")
    case True
    then have "roundNearestEven (- x) = - x" using a by (intro r) simp_all
    with True show ?thesis by (simp add: toDouble_def)
  next
    case False
    then have "roundNearestEven x = x" using a by (intro r) simp_all
    with False show ?thesis by (simp add: toDouble_def)
  qed
qed

lemma isDouble_exact: "\<bar>x\<bar> \<le> 2 ^ 53 \<Longrightarrow> isDouble x"
proof -
  assume a: "\<bar>x\<bar> \<le> 2 ^ 53"
  have "(2::int) ^ 53 < 2 ^ 1024" by simp
  with a have "\<bar>x\<bar> < 2 ^ 1024" by linarith
  with a show ?thesis by (simp add: isDouble_def toDouble_exact)
qed

lemma digitVal_digitChar: "0 \<le> d \<Longrightarrow> d < 10 \<Longrightarrow> digitVal (digitChar d) = d"
  by (simp add: digitVal_def digitChar_def)

lemma isDigit_digitChar: "0 \<le> d \<Longrightarrow> d < 10 \<Longrightarrow> isDigit (digitChar d)"
  by (simp add: isDigit_def digitChar_def)

lemma digitsValue_snoc: "digitsValue (v @ [c]) = 10 * digitsValue v + digitVal c"
  by (simp add: digitsValue_def)

lemma decimal_props:
  "0 \<le> n \<Longrightarrow> decimal n \<noteq> [] \<and> (\<forall>c\<in>set (decimal n). isDigit c) \<and> digitsValue (decimal n) = n"
proof (induction n rule: decimal.induct)
  case (1 n)
  show ?case
  proof (cases "n < 10")
    case True
    with 1(2) show ?thesis
      by (simp add: decimal.simps[of n] isDigit_digitChar digitVal_digitChar digitsValue_def)
  next
    case False
    then have "0 \<le> n div 10" by simp
    with 1(1) False have ih: "decimal (n div 10) \<noteq> []" "\<forall>c\<in>set (decimal (n div 10)). isDigit c"
      "digitsValue (decimal (n div 10)) = n div 10" by auto
    have m: "0 \<le> n mod 10" "n mod 10 < 10" by simp_all
    show ?thesis using False ih m
      by (simp add: decimal.simps[of n] digitsValue_snoc isDigit_digitChar digitVal_digitChar)
  qed
qed

lemma decimal_length: "n < 10 ^ k \<Longrightarrow> 0 < k \<Longrightarrow> length (decimal n) \<le> k"
proof (induction n arbitrary: k rule: decimal.induct)
  case (1 n)
  show ?case
  proof (cases "n < 10")
    case True
    with 1(3) show ?thesis by (simp add: decimal.simps[of n])
  next
    case False
    obtain k' where k: "k = Suc k'" using 1(3) by (cases k) auto
    have "k' \<noteq> 0" using False 1(2) k by (cases k') auto
    then have k0: "0 < k'" by simp
    have "n < 10 * 10 ^ k'" using 1(2) k by simp
    then have "n div 10 < 10 ^ k'" by (simp add: div_less_iff_less_mult mult.commute)
    from 1(1)[OF False this k0] show ?thesis using False k by (simp add: decimal.simps[of n])
  qed
qed

lemma toDouble_1e21: "toDouble (10 ^ 21) = 10 ^ 21"
  by code_simp

lemma power10_split: "Suc j \<le> 20 \<Longrightarrow> (10::int) ^ 21 = 10 ^ (20 - j) * 10 ^ Suc j"
proof -
  assume "Suc j \<le> 20"
  then have "21 = (20 - j) + Suc j" by simp
  then have "(10::int) ^ 21 = 10 ^ ((20 - j) + Suc j)" by simp
  then show ?thesis by (simp only: power_add)
qed

lemma candidates_bound:
  fixes x :: int
  assumes x: "0 \<le> x" "x < 10 ^ 21" and j: "Suc j \<le> 20"
  shows "0 \<le> (x div 10 ^ Suc j) * 10 ^ Suc j"
    and "(x div 10 ^ Suc j) * 10 ^ Suc j \<le> x"
    and "(x div 10 ^ Suc j) * 10 ^ Suc j + 10 ^ Suc j \<le> 10 ^ 21"
proof -
  define m :: int where "m = 10 ^ Suc j"
  define c :: int where "c = 10 ^ (20 - j)"
  have m0: "0 < m" by (simp add: m_def)
  have mc: "10 ^ 21 = c * m" unfolding m_def c_def using j by (rule power10_split)
  have d0: "0 \<le> x div m" using x(1) m0 by (simp add: pos_imp_zdiv_nonneg_iff)
  show "0 \<le> (x div 10 ^ Suc j) * 10 ^ Suc j" using d0 m0 unfolding m_def by simp
  have "x div m * m + x mod m = x" by simp
  moreover have "0 \<le> x mod m" using m0 by simp
  ultimately have "x div m * m \<le> x" by linarith
  then show "(x div 10 ^ Suc j) * 10 ^ Suc j \<le> x" unfolding m_def .
  have "x < c * m" using x(2) mc by simp
  have "x div m < c"
  proof (rule ccontr)
    assume "\<not> x div m < c"
    then have "c \<le> x div m" by simp
    then have "c * m \<le> x div m * m" using m0 by (intro mult_right_mono) simp_all
    with \<open>x div m * m \<le> x\<close> \<open>x < c * m\<close> show False by linarith
  qed
  then have "x div m + 1 \<le> c" by simp
  then have "(x div m + 1) * m \<le> c * m" using m0 by (intro mult_right_mono) simp_all
  then have "x div m * m + m \<le> 10 ^ 21" unfolding mc by (simp add: algebra_simps)
  then show "(x div 10 ^ Suc j) * 10 ^ Suc j + 10 ^ Suc j \<le> 10 ^ 21" unfolding m_def .
qed

lemma shortestFrom_props:
  assumes d: "toDouble x = x" and x: "0 \<le> x" "x < 10 ^ 21"
  shows "j \<le> 20 \<Longrightarrow>
         toDouble (shortestFrom x j) = x \<and> 0 \<le> shortestFrom x j \<and> shortestFrom x j < 10 ^ 21"
proof (induction j)
  case 0
  then show ?case using d x by simp
next
  case (Suc j)
  define lo where "lo = (x div 10 ^ Suc j) * 10 ^ Suc j"
  define hi where "hi = lo + 10 ^ Suc j"
  have lo: "0 \<le> lo" "lo \<le> x" and hi: "hi \<le> 10 ^ 21"
    using candidates_bound[OF x Suc(2)] by (simp_all add: lo_def hi_def)
  have lo21: "lo < 10 ^ 21" using lo(2) x(2) by linarith
  have hipos: "0 \<le> hi" using lo(1) by (simp add: hi_def)
  have hi21: "hi < 10 ^ 21" if "toDouble hi = x"
  proof (rule ccontr)
    assume "\<not> hi < 10 ^ 21"
    with hi have "hi = 10 ^ 21" by linarith
    with that toDouble_1e21 have "x = 10 ^ 21" by simp
    with x(2) show False by simp
  qed
  have ih: "toDouble (shortestFrom x j) = x \<and> 0 \<le> shortestFrom x j \<and> shortestFrom x j < 10 ^ 21"
    using Suc by simp
  have s: "shortestFrom x (Suc j) =
      (if toDouble lo = x \<and> toDouble hi = x then
           (if x - lo < hi - x then lo
            else if hi - x < x - lo then hi
            else if even (x div 10 ^ Suc j) then lo else hi)
         else if toDouble lo = x then lo
         else if toDouble hi = x then hi
         else shortestFrom x j)"
    by (simp only: shortestFrom.simps Let_def lo_def hi_def)
  show ?case unfolding s using lo lo21 hipos hi21 ih by auto
qed

lemma shortestDecimal_props:
  assumes "toDouble x = x" "0 \<le> x" "x < 10 ^ 21"
  shows "toDouble (shortestDecimal x) = x \<and> 0 \<le> shortestDecimal x \<and> shortestDecimal x < 10 ^ 21"
proof -
  have "length (decimal x) \<le> 21" using assms(3) by (rule decimal_length) simp
  then have "length (decimal x) - 1 \<le> 20" by simp
  then show ?thesis unfolding shortestDecimal_def by (rule shortestFrom_props[OF assms])
qed

lemma isDigit_not_space: "isDigit c \<Longrightarrow> \<not> isSpace c"
  by (auto simp: isDigit_def isSpace_def)

lemma isDigit_not_sign: "isDigit c \<Longrightarrow> c \<noteq> CHR ''-'' \<and> c \<noteq> CHR ''+''"
  by (auto simp: isDigit_def)

lemma parseInt_digits:
  assumes "ds \<noteq> []" "\<forall>c\<in>set ds. isDigit c"
  shows "parseInt ds = Some (toNumber (digitsValue ds))"
proof -
  obtain c cs where ds: "ds = c # cs" using assms(1) by (cases ds) auto
  have c: "isDigit c" using assms(2) ds by simp
  have sg: "c \<noteq> CHR ''-''" "c \<noteq> CHR ''+''" using isDigit_not_sign[OF c] by simp_all
  have tw: "takeWhile isDigit cs = cs" using assms(2) ds by simp
  show ?thesis unfolding ds
    using c sg by (simp add: parseInt_def Let_def isDigit_not_space tw)
qed

lemma small_is_finite: "x < 10 ^ 21 \<Longrightarrow> (x::int) < 2 ^ 1024"
proof -
  assume "x < 10 ^ 21"
  moreover have "(10::int) ^ 21 < 2 ^ 1024" by simp
  ultimately show ?thesis by linarith
qed

lemma numberToString_below_1e21:
  assumes "toDouble x = x" "0 \<le> x" "x < 10 ^ 21"
  shows "numberToString (Finite x) = decimal (shortestDecimal x)
         \<and> parseInt (numberToString (Finite x)) = Some (Finite x)"
proof -
  define v where "v = shortestDecimal x"
  have v: "toDouble v = x" "0 \<le> v" "v < 10 ^ 21"
    using shortestDecimal_props[OF assms] by (simp_all add: v_def)
  have w: "numberToString (Finite x) = decimal v"
    using assms(2) v(3) by (simp add: writeDigits_def v_def)
  have "parseInt (decimal v) = Some (toNumber (digitsValue (decimal v)))"
    using decimal_props[OF v(2)] by (intro parseInt_digits) simp_all
  also have "digitsValue (decimal v) = v" using decimal_props[OF v(2)] by simp
  also have "toNumber v = Finite x"
    using v(1) small_is_finite[OF assms(3)] by (simp add: toNumber_def)
  finally show ?thesis using w by (simp add: v_def)
qed

text \<open>
  Samples of the rounding and of the text of a number: \<open>2 ^ 53 + 1\<close> is not a double,
  21 nines round to \<open>10 ^ 21\<close>, the double nearest to \<open>10 ^ 23\<close> is written \<open>1e+23\<close>,
  and the largest double is followed by \<open>Infinity\<close>, which is what \<open>parseInt\<close> gives for
  310 nines.
\<close>

lemma toDouble_samples:
  "toDouble 9007199254740993 = 9007199254740992
   \<and> toDouble 9007199254740995 = 9007199254740996
   \<and> toDouble 999999999999999999999 = 10 ^ 21
   \<and> toDouble (10 ^ 23) = 99999999999999991611392"
  by code_simp

lemma numberToString_samples:
  "numberToString (Finite 0) = ''0''
   \<and> numberToString (Finite 120) = ''120''
   \<and> numberToString (Finite (toDouble 12345678901234567890)) = ''12345678901234567000''
   \<and> numberToString (Finite (toDouble (10 ^ 23))) = ''1e+23''
   \<and> numberToString (Finite (toDouble 123456789012345678901234)) = ''1.2345678901234569e+23''"
  by code_simp

lemma toNumber_overflow:
  "toNumber (2 ^ 1024 - 2 ^ 970 - 1) = Finite (2 ^ 1024 - 2 ^ 971)
   \<and> toNumber (2 ^ 1024 - 2 ^ 970) = Infinity"
  by code_simp

lemma parseInt_overflow:
  "parseInt (replicate 310 (CHR ''9'')) = Some Infinity
   \<and> numberToString Infinity = ''Infinity''"
  by code_simp

subsection \<open>Grade normalisation\<close>

lemma isDigit_lower: "isDigit c \<Longrightarrow> lowerChar c = c"
  by (auto simp: isDigit_def lowerChar_def)

lemma isDigit_not_k: "isDigit c \<Longrightarrow> c \<noteq> CHR ''k''"
  by (auto simp: isDigit_def)

lemma dropWhile_none: "\<forall>c\<in>set xs. \<not> p c \<Longrightarrow> dropWhile p xs = xs"
  by (cases xs) simp_all

lemma trim_digits: "\<forall>c\<in>set ds. isDigit c \<Longrightarrow> trim ds = ds"
proof -
  assume a: "\<forall>c\<in>set ds. isDigit c"
  then have ns: "\<forall>c\<in>set ds. \<not> isSpace c" by (simp add: isDigit_not_space)
  then have "\<forall>c\<in>set (rev ds). \<not> isSpace c" by simp
  then have "dropWhile isSpace (rev ds) = rev ds" by (rule dropWhile_none)
  moreover have "dropWhile isSpace ds = ds" using ns by (rule dropWhile_none)
  ultimately show ?thesis by (simp add: trim_def)
qed

lemma lower_digits: "\<forall>c\<in>set ds. isDigit c \<Longrightarrow> toLowerCase ds = ds"
  by (simp add: toLowerCase_def isDigit_lower map_idI)

lemma normalizeGrade_digits:
  assumes "ds \<noteq> []" "\<forall>c\<in>set ds. isDigit c"
  shows "normalizeGrade ds = numberToString (toNumber (digitsValue ds))"
proof -
  obtain c cs where ds: "ds = c # cs" using assms(1) by (cases ds) auto
  have c: "isDigit c" using assms(2) ds by simp
  then have ck: "c \<noteq> CHR ''k''" by (rule isDigit_not_k)
  have tw: "takeWhile isDigit ds = ds" using assms(2) by simp
  have gm: "gradeMatch ds = Some ds" using c ck tw ds by (simp add: startsWith_def)
  have nk: "ds \<noteq> ''k''" "\<not> startsWith ''kind'' ds" "ds \<noteq> ''kindergarten''"
    using ck ds by (auto simp: startsWith_def)
  show ?thesis using assms nk gm
    by (simp add: normalizeGrade_def trim_digits lower_digits parseInt_digits)
qed

lemma normalizeGrade_K: "normalizeGrade ''K'' = ''K''" by code_simp

lemma digitVal_nonneg: "isDigit c \<Longrightarrow> 0 \<le> digitVal c"
  by (simp add: isDigit_def digitVal_def)

lemma digitsValue_nonneg: "\<forall>c\<in>set v. isDigit c \<Longrightarrow> 0 \<le> digitsValue v"
  by (induction v rule: rev_induct) (simp_all add: digitsValue_def digitVal_nonneg)

lemma gradeMatch_cases:
  "gradeMatch s = Some val \<Longrightarrow>
     val = ''k'' \<or> val = ''kindergarten'' \<or> (val \<noteq> [] \<and> (\<forall>c\<in>set val. isDigit c))"
  by (induction s) (auto split: if_splits dest: set_takeWhileD)

lemma normalizeGrade_cases:
  "normalizeGrade x = [] \<or> normalizeGrade x = ''K'' \<or>
   (\<exists>val. gradeMatch (toLowerCase (trim x)) = Some val \<and> val \<noteq> ''k'' \<and> val \<noteq> ''kindergarten''
      \<and> normalizeGrade x = (case parseInt val of None \<Rightarrow> ''NaN'' | Some n \<Rightarrow> numberToString n))"
proof (cases "x = []")
  case True
  then show ?thesis by (simp add: normalizeGrade_def)
next
  case nonempty: False
  let ?s = "toLowerCase (trim x)"
  show ?thesis
  proof (cases "?s = ''k'' \<or> startsWith ''kind'' ?s")
    case True
    with nonempty have "normalizeGrade x = ''K''" unfolding normalizeGrade_def Let_def by simp
    then show ?thesis by simp
  next
    case nk: False
    show ?thesis
    proof (cases "gradeMatch ?s")
      case None
      with nonempty nk have "normalizeGrade x = []" unfolding normalizeGrade_def Let_def by simp
      then show ?thesis by simp
    next
      case (Some val)
      show ?thesis
      proof (cases "val = ''k'' \<or> val = ''kindergarten''")
        case True
        with nonempty nk Some have "normalizeGrade x = ''K''"
          unfolding normalizeGrade_def Let_def by simp
        then show ?thesis by simp
      next
        case False
        with nonempty nk Some
        have "normalizeGrade x = (case parseInt val of None \<Rightarrow> ''NaN'' | Some n \<Rightarrow> numberToString n)"
          unfolding normalizeGrade_def Let_def by simp
        with Some False show ?thesis by simp
      qed
    qed
  qed
qed

text \<open>The sample inputs of the specification are sent to fixed points.\<close>

lemma normalizeGrade_samples:
  "map (\<lambda>x. normalizeGrade (normalizeGrade x) = normalizeGrade x)
     [''K'', ''kindergarten'', ''Kindergarten'', ''5'', ''5th Grade'', '' 3 '']
   = [True, True, True, True, True, True]"
  by code_simp

text \<open>
  Digits that do not denote a double are rounded by \<open>parseInt\<close>: \<open>2 ^ 53 + 1\<close> comes back
  as \<open>2 ^ 53\<close>, and 21 nines come back as \<open>1e+21\<close>, of which a second pass keeps \<open>1\<close>.
\<close>

lemma normalizeGrade_rounds:
  "normalizeGrade ''9007199254740993'' = ''9007199254740992''
   \<and> normalizeGrade ''999999999999999999999'' = ''1e+21''
   \<and> normalizeGrade (normalizeGrade ''999999999999999999999'') = ''1''"
  by code_simp

text \<open>
  A digit string too long for a double is read as \<open>Infinity\<close>, of which a second pass
  keeps nothing.
\<close>

lemma normalizeGrade_overflow:
  "normalizeGrade (replicate 310 (CHR ''9'')) = ''Infinity'' \<and> normalizeGrade ''Infinity'' = []"
proof -
  let ?ds = "replicate 310 (CHR ''9'')"
  have ne: "?ds \<noteq> []" by simp
  have dg: "\<forall>c\<in>set ?ds. isDigit c" by (simp add: isDigit_def)
  have "parseInt ?ds = Some Infinity" using parseInt_overflow by (rule conjunct1)
  then have "toNumber (digitsValue ?ds) = Infinity"
    unfolding parseInt_digits[OF ne dg] by simp
  then have a: "normalizeGrade ?ds = ''Infinity''"
    unfolding normalizeGrade_digits[OF ne dg] by simp
  have b: "normalizeGrade ''Infinity'' = []" by code_simp
  from a b show ?thesis by (rule conjI)
qed

text \<open>
  Claim C7, as the code has it. \<open>normalizeGrade\<close> is a function of its argument alone. It
  is idempotent on every input whose matched digit string \<open>parseInt\<close> reads as a number
  below \<open>10 ^ 21\<close>, the range in which \<open>String\<close> writes a number with all its digits; it
  maps \<open>Kindergarten\<close> to \<open>K\<close>, \<open>5th Grade\<close> to \<open>5\<close>, the empty string to the empty
  string, and \<open>05\<close> to \<open>5\<close>, the matched digits being parsed as a number and written
  back.
\<close>

theorem normalizeGrade_idempotent_below_1e21:
  "((\<forall>val n. gradeMatch (toLowerCase (trim x)) = Some val \<and> parseInt val = Some n
        \<longrightarrow> (\<exists>r. n = Finite r \<and> r < 10 ^ 21))
      \<longrightarrow> normalizeGrade (normalizeGrade x) = normalizeGrade x)
   \<and> normalizeGrade ''Kindergarten'' = ''K''
   \<and> normalizeGrade ''5th Grade'' = ''5''
   \<and> normalizeGrade [] = []
   \<and> normalizeGrade ''05'' = ''5''"
proof -
  have idem: "normalizeGrade (normalizeGrade x) = normalizeGrade x"
    if h: "\<forall>val n. gradeMatch (toLowerCase (trim x)) = Some val \<and> parseInt val = Some n
             \<longrightarrow> (\<exists>r. n = Finite r \<and> r < 10 ^ 21)"
  proof -
    let ?s = "toLowerCase (trim x)"
    from normalizeGrade_cases[of x]
    consider (empty) "normalizeGrade x = []" | (K) "normalizeGrade x = ''K''"
      | (num) val where "gradeMatch ?s = Some val" "val \<noteq> ''k''" "val \<noteq> ''kindergarten''"
          "normalizeGrade x = (case parseInt val of None \<Rightarrow> ''NaN'' | Some n \<Rightarrow> numberToString n)"
      by blast
    then show ?thesis
    proof cases
      case empty
      then show ?thesis by (simp add: normalizeGrade_def)
    next
      case K
      then show ?thesis by (simp add: normalizeGrade_K)
    next
      case (num val)
      from gradeMatch_cases[OF num(1)] num(2,3)
      have d: "val \<noteq> []" "\<forall>c\<in>set val. isDigit c" by auto
      have p: "parseInt val = Some (toNumber (digitsValue val))"
        using d by (rule parseInt_digits)
      with h num(1) obtain r where r: "toNumber (digitsValue val) = Finite r" "r < 10 ^ 21"
        by blast
      have rd: "r = toDouble (digitsValue val)"
        using r(1) by (simp add: toNumber_def split: if_splits)
      have "0 \<le> digitsValue val" using d(2) by (rule digitsValue_nonneg)
      then have r0: "0 \<le> r" unfolding rd by (rule toDouble_nonneg)
      have rr: "toDouble r = r" unfolding rd by (rule toDouble_idem)
      define v where "v = shortestDecimal r"
      have v: "toDouble v = r" "0 \<le> v" "v < 10 ^ 21"
        using shortestDecimal_props[OF rr r0 r(2)] by (simp_all add: v_def)
      have out: "normalizeGrade x = decimal v"
        using num(4) p r(1) numberToString_below_1e21[OF rr r0 r(2)] by (simp add: v_def)
      have dv: "decimal v \<noteq> []" "\<forall>c\<in>set (decimal v). isDigit c" "digitsValue (decimal v) = v"
        using decimal_props[OF v(2)] by simp_all
      have "toNumber v = Finite r"
        using v(1) small_is_finite[OF r(2)] by (simp add: toNumber_def)
      then have "normalizeGrade (decimal v) = numberToString (Finite r)"
        using normalizeGrade_digits[OF dv(1,2)] dv(3) by simp
      also have "\<dots> = decimal v"
        using numberToString_below_1e21[OF rr r0 r(2)] by (simp add: v_def)
      finally show ?thesis using out by simp
    qed
  qed
  have e1: "normalizeGrade ''Kindergarten'' = ''K''" by code_simp
  have e2: "normalizeGrade ''5th Grade'' = ''5''" by code_simp
  have e3: "normalizeGrade [] = []" by (simp add: normalizeGrade_def)
  have e4: "normalizeGrade ''05'' = ''5''" by code_simp
  from idem e1 e2 e3 e4 show ?thesis by blast
qed

text \<open>
  The theorem at the input \<open>'' 3 ''\<close>, whose matched digit string is \<open>3\<close> and is read as
  the number 3.
\<close>

theorem normalizeGrade_idempotent_below_1e21_witness:
  "gradeMatch (toLowerCase (trim '' 3 '')) = Some ''3''
   \<and> parseInt ''3'' = Some (Finite 3)
   \<and> (3::int) < 10 ^ 21
   \<and> normalizeGrade '' 3 '' = ''3''
   \<and> normalizeGrade (normalizeGrade '' 3 '') = normalizeGrade '' 3 ''"
proof -
  have m: "gradeMatch (toLowerCase (trim '' 3 '')) = Some ''3''" by code_simp
  have p: "parseInt ''3'' = Some (Finite 3)" by code_simp
  have l: "(3::int) < 10 ^ 21" by simp
  have n: "normalizeGrade '' 3 '' = ''3''" by code_simp
  have "\<forall>val n. gradeMatch (toLowerCase (trim '' 3 '')) = Some val \<and> parseInt val = Some n
          \<longrightarrow> (\<exists>r. n = Finite r \<and> r < 10 ^ 21)"
    using m p by simp
  with normalizeGrade_idempotent_below_1e21[of "'' 3 ''"]
  have "normalizeGrade (normalizeGrade '' 3 '') = normalizeGrade '' 3 ''" by blast
  with m p l n show ?thesis by blast
qed

text \<open>
  Idempotence does not hold for every input. \<open>parseInt\<close> of the 22 digits of \<open>10 ^ 21\<close> is
  the number \<open>1e21\<close> (a double holds \<open>10 ^ 21\<close> exactly), which \<open>String\<close> writes as
  \<open>1e+21\<close>; normalising that text matches the digit \<open>1\<close> alone.
\<close>

theorem normalizeGrade_not_idempotent_1e21:
  "normalizeGrade ''1000000000000000000000'' = ''1e+21''
   \<and> normalizeGrade (normalizeGrade ''1000000000000000000000'') = ''1''
   \<and> normalizeGrade (normalizeGrade ''1000000000000000000000'')
       \<noteq> normalizeGrade ''1000000000000000000000''"
  by code_simp

subsection \<open>Loading, the schema repair and login\<close>

lemma ensureUser_username [simp]: "u_username (ensureUser u) = u_username u"
  by (simp add: ensureUser_def Let_def)

lemma ensureUser_password [simp]: "u_password (ensureUser u) = u_password u"
  by (simp add: ensureUser_def Let_def)

lemma ensureUser_role [simp]: "u_role (ensureUser u) = u_role u"
  by (simp add: ensureUser_def Let_def)

lemma ensureUser_idem [simp]: "ensureUser (ensureUser u) = ensureUser u"
  by (simp add: ensureUser_def Let_def)

lemma ensureUser_fixed:
  "u_role u \<noteq> ''teacher'' \<or> (u_accessibleStudentIds u \<noteq> None \<and> u_gradeAccess u \<noteq> None)
     \<Longrightarrow> ensureUser u = u"
  by (auto simp: ensureUser_def Let_def)

lemma ensureSchema_idem: "ensureSchema (ensureSchema d) = ensureSchema d"
  by (simp add: ensureSchema_def)

lemma find_map_comp: "find p (map f xs) = map_option f (find (\<lambda>x. p (f x)) xs)"
  by (induction xs) simp_all

lemma loadData_users: "users (loadData st) = map ensureUser (users (localStorage st))"
  by (simp add: loadData_def ensureSchema_def)

lemma loadData_fields [simp]:
  "students (loadData st) = students (localStorage st)"
  "houses (loadData st) = houses (localStorage st)"
  "transactions (loadData st) = transactions (localStorage st)"
  "houseLimits (loadData st) = houseLimits (localStorage st)"
  "nextTransactionId (loadData st) = nextTransactionId (localStorage st)"
  "nextStudentId (loadData st) = nextStudentId (localStorage st)"
  "nextHouseId (loadData st) = nextHouseId (localStorage st)"
  by (simp_all add: loadData_def ensureSchema_def)

lemma login_eq:
  "login un pw st =
     (case find (\<lambda>u. toLowerCase (u_username u) = toLowerCase (trim un) \<and> u_password u = pw)
             (users (localStorage st)) of
        Some u \<Rightarrow> (None, st\<lparr>sessionStorage := Some (ensureUser u)\<rparr>)
      | None \<Rightarrow> (Some ''Invalid username or password'', st))"
  by (simp add: login_def Let_def loadData_users find_map_comp setCurrentUser_def
      split: option.splits)

text \<open>
  Claim C8, as the code has it. \<open>loadData\<close> repairs the copy it returns: every teacher
  record of the loaded document has both \<open>accessibleStudentIds\<close> and \<open>gradeAccess\<close>, a
  missing one being the empty list and a present one kept, and records of other roles are
  returned as stored. The model has no failing branch: \<open>ensureSchema\<close> is total. Loading
  does not write; the repair reaches the store when a handler saves the loaded document,
  and a document saved that way is loaded without any further repair.
\<close>

theorem loadData_backfills_copy:
  "users (loadData st) = map ensureUser (users (localStorage st))
   \<and> (\<forall>u. u_role u = ''teacher'' \<longrightarrow>
          u_accessibleStudentIds (ensureUser u)
            = Some (case u_accessibleStudentIds u of None \<Rightarrow> [] | Some ids \<Rightarrow> ids)
          \<and> u_gradeAccess (ensureUser u)
            = Some (case u_gradeAccess u of None \<Rightarrow> [] | Some gs \<Rightarrow> gs))
   \<and> (\<forall>u. u_role u \<noteq> ''teacher'' \<longrightarrow> ensureUser u = u)
   \<and> (\<forall>u. u_username (ensureUser u) = u_username u \<and> u_password (ensureUser u) = u_password u
          \<and> u_role (ensureUser u) = u_role u \<and> u_name (ensureUser u) = u_name u
          \<and> u_houseId (ensureUser u) = u_houseId u)
   \<and> loadData (saveData (loadData st) st) = localStorage (saveData (loadData st) st)"
proof -
  have a: "users (loadData st) = map ensureUser (users (localStorage st))"
    by (rule loadData_users)
  have b: "\<forall>u. u_role u = ''teacher'' \<longrightarrow>
          u_accessibleStudentIds (ensureUser u)
            = Some (case u_accessibleStudentIds u of None \<Rightarrow> [] | Some ids \<Rightarrow> ids)
          \<and> u_gradeAccess (ensureUser u)
            = Some (case u_gradeAccess u of None \<Rightarrow> [] | Some gs \<Rightarrow> gs)"
    by (auto simp: ensureUser_def Let_def split: option.splits)
  have c: "\<forall>u. u_role u \<noteq> ''teacher'' \<longrightarrow> ensureUser u = u"
    by (simp add: ensureUser_fixed)
  have d: "\<forall>u. u_username (ensureUser u) = u_username u \<and> u_password (ensureUser u) = u_password u
          \<and> u_role (ensureUser u) = u_role u \<and> u_name (ensureUser u) = u_name u
          \<and> u_houseId (ensureUser u) = u_houseId u"
    by (simp add: ensureUser_def Let_def)
  have e: "loadData (saveData (loadData st) st) = localStorage (saveData (loadData st) st)"
    by (simp add: loadData_def saveData_def ensureSchema_idem)
  from a b c d e show ?thesis by blast
qed

text \<open>The theorem at the legacy teacher record and the legacy store.\<close>

theorem loadData_backfills_copy_witness:
  "u_role legacyTeacher = ''teacher''
   \<and> u_accessibleStudentIds legacyTeacher = None \<and> u_gradeAccess legacyTeacher = None
   \<and> u_accessibleStudentIds (ensureUser legacyTeacher) = Some []
   \<and> u_gradeAccess (ensureUser legacyTeacher) = Some []
   \<and> u_role (hd (users (localStorage legacyState))) \<noteq> ''teacher''
   \<and> ensureUser (hd (users (localStorage legacyState))) = hd (users (localStorage legacyState))
   \<and> users (loadData legacyState) = map ensureUser (users (localStorage legacyState))"
proof -
  have r: "u_role legacyTeacher = ''teacher''" by (simp add: legacyTeacher_def)
  have n: "u_accessibleStudentIds legacyTeacher = None" "u_gradeAccess legacyTeacher = None"
    by (simp_all add: legacyTeacher_def)
  have a: "u_role (hd (users (localStorage legacyState))) \<noteq> ''teacher''"
    by (simp add: legacyState_def initData_def)
  from loadData_backfills_copy[of legacyState] r n a show ?thesis by simp
qed

text \<open>
  The repair is not written back by loading. \<open>login\<close> loads the legacy store and puts the
  repaired teacher record in the session, but the store still holds the record without
  the two fields, so the next load has to repair it again.
\<close>

theorem loadData_repair_not_stored:
  "fst (login ''mrsmith'' ''Pw1'' legacyState) = None
   \<and> sessionStorage (snd (login ''mrsmith'' ''Pw1'' legacyState))
       = Some (legacyTeacher\<lparr>u_gradeAccess := Some [], u_accessibleStudentIds := Some []\<rparr>)
   \<and> localStorage (snd (login ''mrsmith'' ''Pw1'' legacyState)) = localStorage legacyState
   \<and> users (localStorage (snd (login ''mrsmith'' ''Pw1'' legacyState)))
       = users initData @ [legacyTeacher]
   \<and> loadData (snd (login ''mrsmith'' ''Pw1'' legacyState))
       \<noteq> localStorage (snd (login ''mrsmith'' ''Pw1'' legacyState))"
  by code_simp

text \<open>
  Claim C10, as the code has it. The alert stays hidden (login succeeds) exactly when some
  stored user has the entered username, trimmed, up to letter case, and exactly the
  entered password. Then such a user, the first in the stored order, becomes the current
  user; the record put in the session is the one \<open>loadData\<close> returns, which is the stored
  record unless that is a teacher record without \<open>accessibleStudentIds\<close> or
  \<open>gradeAccess\<close>; the store is untouched. Otherwise the state is unchanged.
\<close>

theorem login_succeeds_iff:
  "(fst (login un pw st) = None \<longleftrightarrow>
      (\<exists>u\<in>set (users (localStorage st)).
         toLowerCase (u_username u) = toLowerCase (trim un) \<and> u_password u = pw))
   \<and> (fst (login un pw st) = None \<longrightarrow>
        (\<exists>u\<in>set (users (localStorage st)).
           toLowerCase (u_username u) = toLowerCase (trim un) \<and> u_password u = pw
           \<and> find (\<lambda>u. toLowerCase (u_username u) = toLowerCase (trim un) \<and> u_password u = pw)
                 (users (localStorage st)) = Some u
           \<and> snd (login un pw st) = st\<lparr>sessionStorage := Some (ensureUser u)\<rparr>
           \<and> (u_role u \<noteq> ''teacher''
                  \<or> (u_accessibleStudentIds u \<noteq> None \<and> u_gradeAccess u \<noteq> None)
                \<longrightarrow> snd (login un pw st) = st\<lparr>sessionStorage := Some u\<rparr>)))
   \<and> (fst (login un pw st) \<noteq> None \<longrightarrow> snd (login un pw st) = st)"
proof -
  let ?p = "\<lambda>u. toLowerCase (u_username u) = toLowerCase (trim un) \<and> u_password u = pw"
  show ?thesis
  proof (cases "find ?p (users (localStorage st))")
    case None
    then have "\<not> (\<exists>u\<in>set (users (localStorage st)). ?p u)" by (simp add: find_None_iff)
    with None show ?thesis by (simp add: login_eq)
  next
    case (Some u)
    then have "u \<in> set (users (localStorage st))" "?p u"
      by (auto simp: find_Some_iff)
    with Some show ?thesis by (auto simp: login_eq ensureUser_fixed)
  qed
qed

text \<open>
  The theorem at the initial document: \<open>Admin\<close> with surrounding blanks and the stored
  password logs the administrator in, with the stored record as the session user; the
  password in another letter case does not. And at the store with the user \<open>Eva\<close>, whose
  name begins with E acute: the name in capital letters behind a no-break space logs her
  in.
\<close>

theorem login_succeeds_iff_witness:
  "fst (login '' Admin '' ''admin123'' \<lparr>localStorage = initData, sessionStorage = None\<rparr>) = None
   \<and> u_role (hd (users initData)) \<noteq> ''teacher''
   \<and> snd (login '' Admin '' ''admin123'' \<lparr>localStorage = initData, sessionStorage = None\<rparr>)
       = \<lparr>localStorage = initData, sessionStorage = Some (hd (users initData))\<rparr>
   \<and> fst (login ''admin'' ''Admin123'' \<lparr>localStorage = initData, sessionStorage = None\<rparr>) \<noteq> None
   \<and> snd (login ''admin'' ''Admin123'' \<lparr>localStorage = initData, sessionStorage = None\<rparr>)
       = \<lparr>localStorage = initData, sessionStorage = None\<rparr>
   \<and> trim [CHR 0xA0, CHR 0xC9, CHR ''V'', CHR ''A'', CHR '' ''] = [CHR 0xC9, CHR ''V'', CHR ''A'']
   \<and> toLowerCase [CHR 0xC9, CHR ''V'', CHR ''A''] = [CHR 0xE9, CHR ''v'', CHR ''a'']
   \<and> toLowerCase (u_username eva) = [CHR 0xE9, CHR ''v'', CHR ''a'']
   \<and> eva \<in> set (users (localStorage evaState))
   \<and> fst (login [CHR 0xA0, CHR 0xC9, CHR ''V'', CHR ''A'', CHR '' ''] ''s3cret'' evaState) = None
   \<and> sessionStorage (snd (login [CHR 0xA0, CHR 0xC9, CHR ''V'', CHR ''A'', CHR '' ''] ''s3cret''
         evaState)) = Some eva"
proof -
  let ?st = "\<lparr>localStorage = initData, sessionStorage = None\<rparr>"
  let ?in = "[CHR 0xA0, CHR 0xC9, CHR ''V'', CHR ''A'', CHR '' '']"
  have ok: "fst (login '' Admin '' ''admin123'' ?st) = None" by code_simp
  have ro: "u_role (hd (users initData)) \<noteq> ''teacher''" by code_simp
  have s: "snd (login '' Admin '' ''admin123'' ?st)
             = \<lparr>localStorage = initData, sessionStorage = Some (hd (users initData))\<rparr>"
    by code_simp
  have bad: "fst (login ''admin'' ''Admin123'' ?st) \<noteq> None" by code_simp
  from login_succeeds_iff[of "''admin''" "''Admin123''" ?st] bad
  have b2: "snd (login ''admin'' ''Admin123'' ?st) = ?st" by blast
  have t: "trim ?in = [CHR 0xC9, CHR ''V'', CHR ''A'']" by code_simp
  have l: "toLowerCase [CHR 0xC9, CHR ''V'', CHR ''A''] = [CHR 0xE9, CHR ''v'', CHR ''a'']"
    "toLowerCase (u_username eva) = [CHR 0xE9, CHR ''v'', CHR ''a'']"
    by code_simp+
  have m: "eva \<in> set (users (localStorage evaState))" by (simp add: evaState_def)
  have pw: "u_password eva = ''s3cret''" by (simp add: eva_def)
  from login_succeeds_iff[of ?in "''s3cret''" evaState] m l t pw
  have e1: "fst (login ?in ''s3cret'' evaState) = None" by auto
  have e2: "sessionStorage (snd (login ?in ''s3cret'' evaState)) = Some eva" by code_simp
  from ok ro s bad b2 t l m e1 e2 show ?thesis by blast
qed

text \<open>
  The session user is not always the stored record. The legacy store holds the teacher
  record of Mr Smith without \<open>gradeAccess\<close> and \<open>accessibleStudentIds\<close>; after his login
  the session holds the record with both fields set to the empty list, which is not the
  stored one, and the store still holds the record without them.
\<close>

theorem login_session_not_stored_record:
  "find (\<lambda>u. toLowerCase (u_username u) = toLowerCase (trim ''MrSmith'') \<and> u_password u = ''Pw1'')
     (users (localStorage legacyState)) = Some legacyTeacher
   \<and> fst (login ''MrSmith'' ''Pw1'' legacyState) = None
   \<and> sessionStorage (snd (login ''MrSmith'' ''Pw1'' legacyState)) \<noteq> Some legacyTeacher
   \<and> sessionStorage (snd (login ''MrSmith'' ''Pw1'' legacyState)) = Some (ensureUser legacyTeacher)
   \<and> u_gradeAccess legacyTeacher = None \<and> u_accessibleStudentIds legacyTeacher = None
   \<and> u_gradeAccess (ensureUser legacyTeacher) = Some []
   \<and> u_accessibleStudentIds (ensureUser legacyTeacher) = Some []
   \<and> users (localStorage (snd (login ''MrSmith'' ''Pw1'' legacyState)))
       = users initData @ [legacyTeacher]"
  by code_simp

subsection \<open>Awarding points: what is rejected\<close>

lemma updateFirst_id: "(\<And>x. p x \<Longrightarrow> f x = x) \<Longrightarrow> updateFirst p f xs = xs"
  by (induction xs) simp_all

lemma updateFirst_found_id: "find p xs = Some x \<Longrightarrow> f x = x \<Longrightarrow> updateFirst p f xs = xs"
  by (induction xs) (auto split: if_splits)




lemma findHouse_find:
  "findHouse hs hid = Some h \<Longrightarrow> find (\<lambda>x. h_id x = h_id h) hs = Some h"
proof -
  assume a: "findHouse hs hid = Some h"
  then obtain i where i: "hid = Some i" "find (\<lambda>x. h_id x = i) hs = Some h"
    by (auto simp: findHouse_def split: option.splits)
  then have "h_id h = i" by (auto simp: find_Some_iff)
  with i(2) show ?thesis by simp
qed

lemma student_points_same: "p = s_points s \<Longrightarrow> s\<lparr>s_points := p\<rparr> = s"
  by (cases s) simp

lemma house_points_same: "p = h_points h \<Longrightarrow> h\<lparr>h_points := p\<rparr> = h"
  by (cases h) simp

lemma addStudentPoints_zero:
  "find (\<lambda>s. s_id s = sid) ss = Some student \<Longrightarrow> isDouble (s_points student)
     \<Longrightarrow> addStudentPoints sid 0 ss = ss"
proof -
  assume f: "find (\<lambda>s. s_id s = sid) ss = Some student" and d: "isDouble (s_points student)"
  have "student\<lparr>s_points := toDouble (s_points student + 0)\<rparr> = student"
    by (rule student_points_same) (use d in \<open>simp add: isDouble_def\<close>)
  then show ?thesis unfolding addStudentPoints_def by (intro updateFirst_found_id[OF f]) simp
qed

lemma addHousePoints_zero:
  "\<forall>h. findHouse hs hid = Some h \<longrightarrow> isDouble (h_points h)
     \<Longrightarrow> addHousePoints (map_option h_id (findHouse hs hid)) 0 hs = hs"
proof (cases "findHouse hs hid")
  case None
  then show ?thesis by (simp add: addHousePoints_def)
next
  case (Some h)
  assume "\<forall>h. findHouse hs hid = Some h \<longrightarrow> isDouble (h_points h)"
  with Some have d: "isDouble (h_points h)" by simp
  have "h\<lparr>h_points := toDouble (h_points h + 0)\<rparr> = h"
    by (rule house_points_same) (use d in \<open>simp add: isDouble_def\<close>)
  then have "updateFirst (\<lambda>x. h_id x = h_id h) (\<lambda>x. x\<lparr>h_points := toDouble (h_points x + 0)\<rparr>) hs = hs"
    by (intro updateFirst_found_id[OF findHouse_find[OF Some]]) simp
  with Some show ?thesis by (simp add: addHousePoints_def)
qed

lemma submit_reject_select:
  "studentId = None \<or> studentId = Some 0 \<or> amountInput = None \<Longrightarrow>
   submitAwardForm studentId amountInput noteInput mode now st
     = (Inl (AlertDanger ''Please select a student and enter a points value.''), st)"
  by (auto simp: submitAwardForm_def Let_def split: option.splits)

lemma submit_reject_note:
  "trim noteInput = [] \<Longrightarrow>
   \<exists>msg. submitAwardForm studentId amountInput noteInput mode now st
           = (Inl (AlertDanger msg), st)"
  by (auto simp: submitAwardForm_def Let_def split: option.splits)

lemma submit_unknown_student:
  "studentId = Some sid \<Longrightarrow> find (\<lambda>s. s_id s = sid) (students (localStorage st)) = None \<Longrightarrow>
   snd (submitAwardForm studentId amountInput noteInput mode now st) = st"
  by (auto simp: submitAwardForm_def Let_def split: option.splits)

lemma submit_posts:
  assumes sid: "sid \<noteq> 0"
    and stu: "find (\<lambda>s. s_id s = sid) (students (localStorage st)) = Some student"
    and nonblank: "trim noteInput \<noteq> []"
    and usr: "sessionStorage st = Some u"
  shows "submitAwardForm (Some sid) (Some amount0) noteInput mode now st =
      (let amount = signedAmount mode amount0;
           data = loadData st;
           hid = map_option h_id (findHouse (houses data) (s_houseId student));
           txn = \<lparr>t_id = nextTransactionId data, t_timestamp = now,
                   t_teacherUsername = u_username u, t_studentId = sid,
                   t_houseId = hid, t_amount = amount, t_note = trim noteInput\<rparr>
       in (Inr txn, st\<lparr>localStorage := data\<lparr>students := addStudentPoints sid amount (students data),
                 houses := addHousePoints hid amount (houses data),
                 nextTransactionId := nextTransactionId data + 1,
                 transactions := transactions data @ [txn]\<rparr>\<rparr>))"
proof -
  have "s_id student = sid" using stu by (auto simp: find_Some_iff)
  then show ?thesis using assms
    by (simp add: submitAwardForm_def Let_def getCurrentUser_def saveData_def)
qed

lemma submit_zero:
  assumes "sid \<noteq> 0" "find (\<lambda>s. s_id s = sid) (students (localStorage st)) = Some student"
    "trim noteInput \<noteq> []" "sessionStorage st = Some u"
    "isDouble (s_points student)"
    "\<forall>h. findHouse (houses (localStorage st)) (s_houseId student) = Some h
         \<longrightarrow> isDouble (h_points h)"
  shows "\<exists>txn st'. submitAwardForm (Some sid) (Some 0) noteInput mode now st = (Inr txn, st')
      \<and> t_amount txn = 0 \<and> t_studentId txn = sid
      \<and> transactions (localStorage st') = transactions (localStorage st) @ [txn]
      \<and> students (localStorage st') = students (localStorage st)
      \<and> houses (localStorage st') = houses (localStorage st)"
proof -
  have z: "signedAmount mode 0 = 0" by (simp add: signedAmount_def)
  have s: "addStudentPoints sid 0 (students (localStorage st)) = students (localStorage st)"
    using assms(2,5) by (rule addStudentPoints_zero)
  have h: "addHousePoints (map_option h_id (findHouse (houses (localStorage st)) (s_houseId student)))
             0 (houses (localStorage st)) = houses (localStorage st)"
    using assms(6) by (rule addHousePoints_zero)
  show ?thesis
    unfolding submit_posts[OF assms(1-4)] by (simp add: Let_def z s h)
qed

text \<open>
  Claim C3, as the code has it. \<open>submitAwardForm\<close> shows a validation alert and leaves
  the state as it was when no student is selected (the parsed id is \<open>NaN\<close> or 0), when
  the amount is not a number, or when the note is empty or white space only. When the
  student id does not resolve to a student, the state is left as it was as well. An
  amount of zero is not rejected: with an existing student, a non-blank note and a
  logged-in user it appends a ledger entry of amount 0 and leaves all points unchanged
  (the points of the student and of the student's house being doubles, as every number
  of the program is).
\<close>

theorem submitAwardForm_rejects:
  "(studentId = None \<or> studentId = Some 0 \<or> amountInput = None \<or> trim noteInput = []
      \<longrightarrow> (\<exists>msg. submitAwardForm studentId amountInput noteInput mode now st
                   = (Inl (AlertDanger msg), st)))
   \<and> (\<forall>sid. studentId = Some sid
              \<and> find (\<lambda>s. s_id s = sid) (students (localStorage st)) = None
          \<longrightarrow> snd (submitAwardForm studentId amountInput noteInput mode now st) = st)
   \<and> (\<forall>sid student u. sid \<noteq> 0
              \<and> find (\<lambda>s. s_id s = sid) (students (localStorage st)) = Some student
              \<and> trim noteInput \<noteq> [] \<and> sessionStorage st = Some u
              \<and> isDouble (s_points student)
              \<and> (\<forall>h. findHouse (houses (localStorage st)) (s_houseId student) = Some h
                      \<longrightarrow> isDouble (h_points h))
          \<longrightarrow> (\<exists>txn st'. submitAwardForm (Some sid) (Some 0) noteInput mode now st
                             = (Inr txn, st')
                  \<and> t_amount txn = 0 \<and> t_studentId txn = sid
                  \<and> transactions (localStorage st') = transactions (localStorage st) @ [txn]
                  \<and> students (localStorage st') = students (localStorage st)
                  \<and> houses (localStorage st') = houses (localStorage st)))"
proof (intro conjI allI impI)
  assume "studentId = None \<or> studentId = Some 0 \<or> amountInput = None \<or> trim noteInput = []"
  then show "\<exists>msg. submitAwardForm studentId amountInput noteInput mode now st
                   = (Inl (AlertDanger msg), st)"
    using submit_reject_select[of studentId amountInput noteInput mode now st]
      submit_reject_note[of noteInput studentId amountInput mode now st]
    by blast
next
  fix sid
  assume "studentId = Some sid \<and> find (\<lambda>s. s_id s = sid) (students (localStorage st)) = None"
  then show "snd (submitAwardForm studentId amountInput noteInput mode now st) = st"
    by (simp add: submit_unknown_student)
next
  fix sid student u
  assume "sid \<noteq> 0 \<and> find (\<lambda>s. s_id s = sid) (students (localStorage st)) = Some student
            \<and> trim noteInput \<noteq> [] \<and> sessionStorage st = Some u
            \<and> isDouble (s_points student)
            \<and> (\<forall>h. findHouse (houses (localStorage st)) (s_houseId student) = Some h
                    \<longrightarrow> isDouble (h_points h))"
  then show "\<exists>txn st'. submitAwardForm (Some sid) (Some 0) noteInput mode now st = (Inr txn, st')
                  \<and> t_amount txn = 0 \<and> t_studentId txn = sid
                  \<and> transactions (localStorage st') = transactions (localStorage st) @ [txn]
                  \<and> students (localStorage st') = students (localStorage st)
                  \<and> houses (localStorage st') = houses (localStorage st)"
    using submit_zero[of sid st student noteInput u mode now] by blast
qed

text \<open>
  The theorem in the small school with the teacher Ms Jones logged in, whose form offers
  Ann: a note of a blank and a no-break space is rejected with the state unchanged, an
  award to the unknown student id 7 leaves the state unchanged, and an award of 0 points
  to Ann is stored.
\<close>

theorem submitAwardForm_rejects_witness:
  "sessionStorage teacherState = Some classTeacher
   \<and> map s_id (selectableStudents (sessionStorage teacherState) (localStorage teacherState)) = [1]
   \<and> trim [CHR '' '', CHR 0xA0] = []
   \<and> submitAwardForm (Some 1) (Some 5) [CHR '' '', CHR 0xA0] ''add'' ''2024-02-02T00:00:00.000Z''
         teacherState
       = (Inl (AlertDanger ''A reason is required.''), teacherState)
   \<and> find (\<lambda>s. s_id s = 7) (students (localStorage teacherState)) = None
   \<and> snd (submitAwardForm (Some 7) (Some 5) ''x'' ''add'' ''2024-02-02T00:00:00.000Z'' teacherState)
       = teacherState
   \<and> find (\<lambda>s. s_id s = 1) (students (localStorage teacherState)) = Some ann
   \<and> isDouble (s_points ann)
   \<and> findHouse (houses (localStorage teacherState)) (s_houseId ann) = Some curie
   \<and> isDouble (h_points curie)
   \<and> (\<exists>txn st'. submitAwardForm (Some 1) (Some 0) ''x'' ''add'' ''2024-02-02T00:00:00.000Z''
                      teacherState = (Inr txn, st')
          \<and> t_amount txn = 0
          \<and> transactions (localStorage st') = transactions (localStorage teacherState) @ [txn]
          \<and> students (localStorage st') = students (localStorage teacherState)
          \<and> houses (localStorage st') = houses (localStorage teacherState))"
proof -
  have u: "sessionStorage teacherState = Some classTeacher"
    by (simp add: teacherState_def)
  have o: "map s_id (selectableStudents (sessionStorage teacherState) (localStorage teacherState))
             = [1]"
    by code_simp
  have a: "find (\<lambda>s. s_id s = 1) (students (localStorage teacherState)) = Some ann"
    by code_simp
  have x: "trim ''x'' \<noteq> []" by code_simp
  have da: "isDouble (s_points ann)" by code_simp
  have fh: "findHouse (houses (localStorage teacherState)) (s_houseId ann) = Some curie"
    by code_simp
  have dc: "isDouble (h_points curie)" by code_simp
  have dh: "\<forall>h. findHouse (houses (localStorage teacherState)) (s_houseId ann) = Some h
              \<longrightarrow> isDouble (h_points h)"
    using fh dc by simp
  have one: "(1::int) \<noteq> 0" by simp
  note third = submitAwardForm_rejects[where st = teacherState and noteInput = "''x''"
      and mode = "''add''" and now = "''2024-02-02T00:00:00.000Z''" and studentId = "Some 1"
      and amountInput = "Some 0", THEN conjunct2, THEN conjunct2, rule_format,
      of 1 ann classTeacher]
  have z: "\<exists>txn st'. submitAwardForm (Some 1) (Some 0) ''x'' ''add'' ''2024-02-02T00:00:00.000Z''
                      teacherState = (Inr txn, st')
          \<and> t_amount txn = 0
          \<and> transactions (localStorage st') = transactions (localStorage teacherState) @ [txn]
          \<and> students (localStorage st') = students (localStorage teacherState)
          \<and> houses (localStorage st') = houses (localStorage teacherState)"
    using third one a x u da dh by blast
  have t: "trim [CHR '' '', CHR 0xA0] = []" by code_simp
  from submitAwardForm_rejects[where studentId = "Some 1" and amountInput = "Some 5"
      and noteInput = "[CHR '' '', CHR 0xA0]" and mode = "''add''"
      and now = "''2024-02-02T00:00:00.000Z''" and st = teacherState] t
  obtain msg where r0: "submitAwardForm (Some 1) (Some 5) [CHR '' '', CHR 0xA0] ''add''
      ''2024-02-02T00:00:00.000Z'' teacherState = (Inl (AlertDanger msg), teacherState)"
    by blast
  have "fst (submitAwardForm (Some 1) (Some 5) [CHR '' '', CHR 0xA0] ''add''
      ''2024-02-02T00:00:00.000Z'' teacherState) = Inl (AlertDanger ''A reason is required.'')"
    by code_simp
  with r0 have r: "submitAwardForm (Some 1) (Some 5) [CHR '' '', CHR 0xA0] ''add''
      ''2024-02-02T00:00:00.000Z'' teacherState
        = (Inl (AlertDanger ''A reason is required.''), teacherState)"
    by simp
  have f: "find (\<lambda>s. s_id s = 7) (students (localStorage teacherState)) = None" by code_simp
  from submitAwardForm_rejects[where studentId = "Some 7" and amountInput = "Some 5"
      and noteInput = "''x''" and mode = "''add''" and now = "''2024-02-02T00:00:00.000Z''"
      and st = teacherState] f
  have k: "snd (submitAwardForm (Some 7) (Some 5) ''x'' ''add'' ''2024-02-02T00:00:00.000Z'' teacherState)
          = teacherState"
    by blast
  from u o t r f k a da fh dc z show ?thesis by blast
qed

text \<open>
  An amount of zero is not rejected. With Ms Jones logged in, amount 0 and the note \<open>x\<close>
  for Ann store a ledger entry of amount 0 and advance the transaction counter.
\<close>

theorem submitAwardForm_accepts_zero:
  "sessionStorage teacherState = Some classTeacher
   \<and> map s_id (selectableStudents (sessionStorage teacherState) (localStorage teacherState)) = [1]
   \<and> fst (submitAwardForm (Some 1) (Some 0) ''x'' ''add'' ''2024-02-02T00:00:00.000Z'' teacherState)
     = Inr \<lparr>t_id = 2, t_timestamp = ''2024-02-02T00:00:00.000Z'', t_teacherUsername = ''msjones'',
            t_studentId = 1, t_houseId = Some 1, t_amount = 0, t_note = ''x''\<rparr>
   \<and> transactions (localStorage (snd (submitAwardForm (Some 1) (Some 0) ''x'' ''add''
         ''2024-02-02T00:00:00.000Z'' teacherState)))
       = transactions (localStorage teacherState) @
         [\<lparr>t_id = 2, t_timestamp = ''2024-02-02T00:00:00.000Z'', t_teacherUsername = ''msjones'',
           t_studentId = 1, t_houseId = Some 1, t_amount = 0, t_note = ''x''\<rparr>]
   \<and> nextTransactionId (localStorage teacherState) = 2
   \<and> nextTransactionId (localStorage (snd (submitAwardForm (Some 1) (Some 0) ''x'' ''add''
         ''2024-02-02T00:00:00.000Z'' teacherState))) = 3
   \<and> snd (submitAwardForm (Some 1) (Some 0) ''x'' ''add'' ''2024-02-02T00:00:00.000Z'' teacherState)
       \<noteq> teacherState"
  by code_simp

subsection \<open>The students a teacher can select\<close>

lemma selectableStudents_teacher:
  assumes "u_role u = ''teacher''"
  shows "set (selectableStudents (Some u) d)
         = {s \<in> set (students d). normalizeGrade (s_grade s)
               \<in> set (case u_gradeAccess u of Some gs \<Rightarrow> map normalizeGrade gs | None \<Rightarrow> [])}"
  using assms
  by (auto simp: selectableStudents_def awardDropdowns_def Let_def)

text \<open>
  Claim C4 at the specification's example. The teacher has grade access to grade 2 and an
  explicit grant for student 7; the award form offers student 1 only. The form filters by
  grade and never reads \<open>accessibleStudentIds\<close>, which the teacher pages store and edit.
\<close>

theorem selectableStudents_example:
  "u_gradeAccess gradeTeacher = Some [''2'']
   \<and> u_accessibleStudentIds gradeTeacher = Some [7]
   \<and> map s_id (students threeStudents) = [1, 7, 9]
   \<and> map s_id (selectableStudents (Some gradeTeacher) threeStudents) = [1]"
  by code_simp

subsection \<open>Posting and reversing a transaction\<close>








subsection \<open>Creating students and houses\<close>

lemma ledgerSum_cong: "transactions d' = transactions d \<Longrightarrow> ledgerSum d' sid = ledgerSum d sid"
  by (simp add: ledgerSum_def)

lemma ledgerSum_fresh:
  "list_all (\<lambda>t. t_studentId t < n) (transactions d) \<Longrightarrow> ledgerSum d n = 0"
proof -
  assume "list_all (\<lambda>t. t_studentId t < n) (transactions d)"
  then have "filter (\<lambda>t. t_studentId t = n) (transactions d) = []"
    by (auto simp: list_all_iff filter_empty_conv)
  then show ?thesis by (simp add: ledgerSum_def)
qed

lemma memberPoints_fresh:
  "list_all (\<lambda>s. houseKnown n (s_houseId s)) (students d) \<Longrightarrow> memberPoints d n = 0"
proof -
  assume "list_all (\<lambda>s. houseKnown n (s_houseId s)) (students d)"
  then have "filter (\<lambda>s. s_houseId s = Some n) (students d) = []"
    by (auto simp: list_all_iff filter_empty_conv houseKnown_def)
  then show ?thesis by (simp add: memberPoints_def)
qed

lemma memberPoints_snoc:
  "students d' = students d @ [new] \<Longrightarrow> s_points new = 0
     \<Longrightarrow> memberPoints d' hid = memberPoints d hid"
  by (simp add: memberPoints_def)

lemma memberPoints_cong: "students d' = students d \<Longrightarrow> memberPoints d' hid = memberPoints d hid"
  by (simp add: memberPoints_def)

lemma addStudent_eq:
  "trim studentName \<noteq> [] \<Longrightarrow>
   localStorage (addStudent studentName studentGrade studentHouse st) =
     (loadData st)\<lparr>nextStudentId := nextStudentId (localStorage st) + 1,
        students := students (localStorage st) @
          [\<lparr>s_id = nextStudentId (localStorage st), s_name = trim studentName,
            s_grade = trim studentGrade, s_houseId = studentHouse, s_points = 0,
            s_photo = None\<rparr>]\<rparr>"
  by (simp add: addStudent_def Let_def saveData_def)

lemma addHouse_eq:
  "trim houseName \<noteq> [] \<Longrightarrow>
   find (\<lambda>h. toLowerCase (h_name h) = toLowerCase (trim houseName)) (houses (localStorage st)) = None \<Longrightarrow>
   addHouse houseName houseColor logoData st =
     (None, st\<lparr>localStorage := (loadData st)\<lparr>nextHouseId := nextHouseId (localStorage st) + 1,
        houses := houses (localStorage st) @
          [\<lparr>h_id = nextHouseId (localStorage st), h_name = trim houseName,
            h_color = (if trim houseColor = [] then None else Some (trim houseColor)),
            h_points = 0,
            h_logo = (case logoData of None \<Rightarrow> None | Some l \<Rightarrow> if l = [] then None else Some l)\<rparr>]\<rparr>\<rparr>)"
  by (simp add: addHouse_def Let_def saveData_def)

lemma addStudent_balances:
  fixes studentName studentGrade studentHouse st
  defines "d \<equiv> localStorage st"
  defines "d' \<equiv> localStorage (addStudent studentName studentGrade studentHouse st)"
  assumes nm: "trim studentName \<noteq> []" and ca: "countersAhead (localStorage st)"
  shows "\<exists>new. students d' = students d @ [new] \<and> s_points new = 0
            \<and> s_id new = nextStudentId d \<and> s_houseId new = studentHouse
            \<and> filter (\<lambda>t. t_studentId t = s_id new) (transactions d') = []
            \<and> houses d' = houses d \<and> transactions d' = transactions d
            \<and> (studentsBalanced d \<longrightarrow> studentsBalanced d')
            \<and> (housesBalanced d \<longrightarrow> housesBalanced d')"
proof -
  define new where "new = \<lparr>s_id = nextStudentId d, s_name = trim studentName,
            s_grade = trim studentGrade, s_houseId = studentHouse, s_points = 0,
            s_photo = None\<rparr>"
  have st: "students d' = students d @ [new]" and hs: "houses d' = houses d"
    and tr: "transactions d' = transactions d"
    using addStudent_eq[OF nm, of studentGrade studentHouse st]
    by (simp_all add: d_def d'_def new_def)
  have fr: "list_all (\<lambda>t. t_studentId t < nextStudentId d) (transactions d)"
    using ca unfolding countersAhead_def d_def list_all_iff by blast
  then have nf: "filter (\<lambda>t. t_studentId t = s_id new) (transactions d') = []"
    by (auto simp: tr new_def list_all_iff filter_empty_conv)
  have z: "ledgerSum d' (s_id new) = 0"
    using ledgerSum_fresh[OF fr] by (simp add: new_def ledgerSum_cong[OF tr])
  have sb: "studentsBalanced d \<longrightarrow> studentsBalanced d'"
    using z by (simp add: studentsBalanced_def st ledgerSum_cong[OF tr] new_def)
  have hb: "housesBalanced d \<longrightarrow> housesBalanced d'"
    by (simp add: housesBalanced_def hs memberPoints_snoc[OF st] new_def)
  show ?thesis
    by (rule exI[of _ new]) (use st hs tr nf sb hb in \<open>simp add: new_def\<close>)
qed

lemma addHouse_balances:
  fixes houseName houseColor logoData st
  defines "d \<equiv> localStorage st"
  defines "d' \<equiv> localStorage (snd (addHouse houseName houseColor logoData st))"
  assumes nm: "trim houseName \<noteq> []"
    and nd: "find (\<lambda>h. toLowerCase (h_name h) = toLowerCase (trim houseName)) (houses (localStorage st)) = None"
    and ca: "countersAhead (localStorage st)"
  shows "\<exists>new. houses d' = houses d @ [new] \<and> h_points new = 0
            \<and> h_id new = nextHouseId d
            \<and> filter (\<lambda>s. s_houseId s = Some (h_id new)) (students d') = []
            \<and> students d' = students d \<and> transactions d' = transactions d
            \<and> (studentsBalanced d \<longrightarrow> studentsBalanced d')
            \<and> (housesBalanced d \<longrightarrow> housesBalanced d')"
proof -
  define new where "new = \<lparr>h_id = nextHouseId d, h_name = trim houseName,
            h_color = (if trim houseColor = [] then None else Some (trim houseColor)),
            h_points = 0,
            h_logo = (case logoData of None \<Rightarrow> None | Some l \<Rightarrow> if l = [] then None else Some l)\<rparr>"
  have hs: "houses d' = houses d @ [new]" and st: "students d' = students d"
    and tr: "transactions d' = transactions d"
    using addHouse_eq[OF nm nd, of houseColor logoData]
    by (simp_all add: d_def d'_def new_def)
  have fr: "list_all (\<lambda>s. houseKnown (nextHouseId d) (s_houseId s)) (students d)"
    using ca unfolding countersAhead_def d_def list_all_iff by blast
  then have nf: "filter (\<lambda>s. s_houseId s = Some (h_id new)) (students d') = []"
    by (auto simp: st new_def list_all_iff filter_empty_conv houseKnown_def)
  have z: "memberPoints d' (h_id new) = 0"
    using memberPoints_fresh[OF fr] by (simp add: new_def memberPoints_cong[OF st])
  have sb: "studentsBalanced d \<longrightarrow> studentsBalanced d'"
    by (simp add: studentsBalanced_def st ledgerSum_cong[OF tr])
  have hb: "housesBalanced d \<longrightarrow> housesBalanced d'"
    using z by (simp add: housesBalanced_def hs memberPoints_cong[OF st] new_def)
  show ?thesis
    by (rule exI[of _ new]) (use st hs tr nf sb hb in \<open>simp add: new_def\<close>)
qed

text \<open>
  Claim C9. In a document whose counters are ahead of the identifiers in use, the
  add-student form with a non-blank name appends a student with 0 points whose id no
  ledger entry refers to, and the add-house form with a non-blank, unused name appends a
  house with 0 points to which no student is assigned. Each of the two keeps both balance
  invariants.
\<close>

theorem creation_starts_at_zero:
  "(trim studentName \<noteq> [] \<and> countersAhead (localStorage st) \<longrightarrow>
      (\<exists>new. students (localStorage (addStudent studentName studentGrade studentHouse st))
               = students (localStorage st) @ [new]
         \<and> s_points new = 0 \<and> s_id new = nextStudentId (localStorage st)
         \<and> s_houseId new = studentHouse
         \<and> filter (\<lambda>t. t_studentId t = s_id new)
              (transactions (localStorage (addStudent studentName studentGrade studentHouse st)))
             = []
         \<and> houses (localStorage (addStudent studentName studentGrade studentHouse st))
             = houses (localStorage st)
         \<and> transactions (localStorage (addStudent studentName studentGrade studentHouse st))
             = transactions (localStorage st)
         \<and> (studentsBalanced (localStorage st) \<longrightarrow>
              studentsBalanced (localStorage (addStudent studentName studentGrade studentHouse st)))
         \<and> (housesBalanced (localStorage st) \<longrightarrow>
              housesBalanced (localStorage (addStudent studentName studentGrade studentHouse st)))))
   \<and> (trim houseName \<noteq> []
        \<and> find (\<lambda>h. toLowerCase (h_name h) = toLowerCase (trim houseName))
             (houses (localStorage st)) = None
        \<and> countersAhead (localStorage st) \<longrightarrow>
      (\<exists>new. houses (localStorage (snd (addHouse houseName houseColor logoData st)))
               = houses (localStorage st) @ [new]
         \<and> h_points new = 0 \<and> h_id new = nextHouseId (localStorage st)
         \<and> filter (\<lambda>s. s_houseId s = Some (h_id new))
              (students (localStorage (snd (addHouse houseName houseColor logoData st)))) = []
         \<and> students (localStorage (snd (addHouse houseName houseColor logoData st)))
             = students (localStorage st)
         \<and> transactions (localStorage (snd (addHouse houseName houseColor logoData st)))
             = transactions (localStorage st)
         \<and> (studentsBalanced (localStorage st) \<longrightarrow>
              studentsBalanced (localStorage (snd (addHouse houseName houseColor logoData st))))
         \<and> (housesBalanced (localStorage st) \<longrightarrow>
              housesBalanced (localStorage (snd (addHouse houseName houseColor logoData st))))))"
  using addStudent_balances[of studentName st studentGrade studentHouse]
    addHouse_balances[of houseName st houseColor logoData]
  by blast

text \<open>
  The theorem in the small school, whose counters are ahead and whose balances hold:
  adding the student Bob to Darwin and adding the house Newton keep both balances.
\<close>

theorem creation_starts_at_zero_witness:
  "trim ''Bob'' = ''Bob'' \<and> trim ''Newton'' = ''Newton''
   \<and> find (\<lambda>h. toLowerCase (h_name h) = toLowerCase ''Newton'')
        (houses (localStorage schoolState)) = None
   \<and> countersAhead (localStorage schoolState)
   \<and> studentsBalanced (localStorage schoolState) \<and> housesBalanced (localStorage schoolState)
   \<and> map s_points (students (localStorage (addStudent ''Bob'' ''3'' (Some 2) schoolState)))
       = [5, 0]
   \<and> studentsBalanced (localStorage (addStudent ''Bob'' ''3'' (Some 2) schoolState))
   \<and> housesBalanced (localStorage (addStudent ''Bob'' ''3'' (Some 2) schoolState))
   \<and> map h_points (houses (localStorage (snd (addHouse ''Newton'' ''red'' None schoolState))))
       = [5, 0, 0]
   \<and> studentsBalanced (localStorage (snd (addHouse ''Newton'' ''red'' None schoolState)))
   \<and> housesBalanced (localStorage (snd (addHouse ''Newton'' ''red'' None schoolState)))"
proof -
  have t: "trim ''Bob'' = ''Bob''" "trim ''Newton'' = ''Newton''" by code_simp+
  have f: "find (\<lambda>h. toLowerCase (h_name h) = toLowerCase ''Newton'')
             (houses (localStorage schoolState)) = None"
    by code_simp
  have c: "countersAhead (localStorage schoolState)" by code_simp
  have b: "studentsBalanced (localStorage schoolState)" "housesBalanced (localStorage schoolState)"
    by code_simp+
  have p: "map s_points (students (localStorage (addStudent ''Bob'' ''3'' (Some 2) schoolState)))
             = [5, 0]"
    "map h_points (houses (localStorage (snd (addHouse ''Newton'' ''red'' None schoolState))))
             = [5, 0, 0]"
    by code_simp+
  have nb: "trim ''Bob'' \<noteq> []" "trim ''Newton'' \<noteq> []" using t by simp_all
  from creation_starts_at_zero[where studentName = "''Bob''" and studentGrade = "''3''"
      and studentHouse = "Some 2" and st = schoolState and houseName = "''Newton''"
      and houseColor = "''red''" and logoData = None] nb f c b t
  have "studentsBalanced (localStorage (addStudent ''Bob'' ''3'' (Some 2) schoolState))
      \<and> housesBalanced (localStorage (addStudent ''Bob'' ''3'' (Some 2) schoolState))
      \<and> studentsBalanced (localStorage (snd (addHouse ''Newton'' ''red'' None schoolState)))
      \<and> housesBalanced (localStorage (snd (addHouse ''Newton'' ''red'' None schoolState)))"
    by auto
  with t f c b p show ?thesis by blast
qed

subsection \<open>The sorting wheel: which house a spin selects\<close>

lemma segmentIndex_eq: "segmentIndex angle = ((360 - angle mod 360) mod 360) div 90"
  by (simp add: segmentIndex_def)


lemma segmentIndex_range: "0 \<le> segmentIndex a \<and> segmentIndex a < 4"
proof -
  define n where "n = (360 - a mod 360) mod 360"
  have "0 \<le> n" "n < 360" unfolding n_def by (rule pos_mod_sign, simp) (rule pos_mod_bound, simp)
  then have "0 \<le> n div 90 \<and> n div 90 < 4" by (simp add: div_less_iff_less_mult pos_imp_zdiv_nonneg_iff)
  then show ?thesis unfolding segmentIndex_eq n_def .
qed




lemma resolveHouse_eq:
  "resolveHouse hs a =
     (case find (\<lambda>h. toLowerCase (h_name h) = toLowerCase (nameMapping ! nat (segmentIndex a))) hs of
        Some h \<Rightarrow> Some h
      | None \<Rightarrow> if hs \<noteq> [] then Some (hs ! nat (segmentIndex a mod int (length hs))) else None)"
proof -
  have "0 \<le> segmentIndex a" "segmentIndex a < 4" using segmentIndex_range[of a] by simp_all
  then have "segmentIndex a mod int (length nameMapping) = segmentIndex a"
    by (simp add: nameMapping_def)
  then show ?thesis by (simp add: resolveHouse_def Let_def findHouseByName_def)
qed



subsection \<open>The sorting wheel: capacity\<close>

lemma geq_not_less: "geqNumber a n \<longleftrightarrow> \<not> lessNumber a n"
  by (cases n) auto

lemma isEligible_iff:
  "isEligible d hid \<longleftrightarrow>
     (\<forall>lim. getLimit d hid = Some (Some lim) \<longrightarrow> lessNumber (getCount d hid) lim)"
  by (auto simp: isEligible_def split: option.splits)

lemma getLimit_none: "map_of (houseLimits d) hid = None \<Longrightarrow> getLimit d hid = None"
  by (simp add: getLimit_def)

lemma parseInt_null: "parseInt ''null'' = None"
  by code_simp

lemma getLimit_nan: "map_of (houseLimits d) hid = Some None \<Longrightarrow> getLimit d hid = Some None"
  by (simp add: getLimit_def parseInt_null)

lemma getLimit_stored:
  "map_of (houseLimits d) hid = Some (Some l) \<Longrightarrow> isDouble l \<Longrightarrow> 0 \<le> l \<Longrightarrow> l < 10 ^ 21
     \<Longrightarrow> getLimit d hid = Some (Some (Finite l))"
proof -
  assume m: "map_of (houseLimits d) hid = Some (Some l)"
    and d: "isDouble l" and l: "0 \<le> l" "l < 10 ^ 21"
  have "toDouble l = l" using d by (simp add: isDouble_def)
  from numberToString_below_1e21[OF this l]
  have "parseInt (numberToString (Finite l)) = Some (Finite l)" by (rule conjunct2)
  then show ?thesis using m by (simp add: getLimit_def del: numberToString.simps)
qed

text \<open>
  A stored limit of \<open>10 ^ 21\<close> or more is read from its exponent notation: of \<open>1e+21\<close>
  the digit 1 is the limit.
\<close>

lemma getLimit_exponent_text:
  "getLimit (initData\<lparr>houseLimits := [(1, Some (10 ^ 21))]\<rparr>) 1 = Some (Some (Finite 1))"
  by code_simp

lemma segmentIndex_mod4: "segmentIndex a mod 4 = segmentIndex a"
  using segmentIndex_range[of a] by simp

lemma respin_step:
  "\<not> isEligible d (h_id h) \<Longrightarrow> n < 20 \<Longrightarrow>
   respin d r n b (Some h) =
     respin d r (Suc n) (b + (fst (r n) * 360 + snd (r n)))
       (Some (case findHouseByName (houses d)
                     (nameMapping ! nat (segmentIndex (b + (fst (r n) * 360 + snd (r n))))) of
                Some house2 \<Rightarrow> house2
              | None \<Rightarrow> h))"
  by (subst respin.simps) (simp add: Let_def maxAttempts_def segmentIndex_mod4 nameMapping_def)

lemma respin_stop:
  "isEligible d (h_id h) \<or> 20 \<le> n \<Longrightarrow> respin d r n b (Some h) = (Some h, b, n)"
  by (subst respin.simps) (auto simp: maxAttempts_def)

lemma respin_None [simp]: "respin d r n b None = (None, b, n)"
  by (simp add: respin.simps)

lemma respin_eligible: "isEligible d (h_id h) \<Longrightarrow> respin d r n b (Some h) = (Some h, b, n)"
  by (simp add: respin.simps)

lemma respin_bound:
  "n \<le> maxAttempts \<Longrightarrow> snd (snd (respin d r n b sel)) \<le> maxAttempts"
proof (induction d r n b sel rule: respin.induct)
  case (1 d r n b sel)
  show ?case
  proof (cases sel)
    case None
    then show ?thesis using 1(2) by simp
  next
    case (Some h)
    show ?thesis
    proof (cases "\<not> isEligible d (h_id h) \<and> n < maxAttempts")
      case True
      then have "Suc n \<le> maxAttempts" by simp
      with 1(1)[OF Some True refl refl refl refl] True Some show ?thesis
        by (subst respin.simps) (simp add: Let_def)
    next
      case False
      with Some 1(2) show ?thesis by (subst respin.simps) auto
    qed
  qed
qed

lemma respin_result:
  "fst (respin d r n b (Some h)) = Some h' \<Longrightarrow> isEligible d (h_id h') \<or> maxAttempts \<le> snd (snd (respin d r n b (Some h)))"
proof (induction d r n b "Some h" arbitrary: h rule: respin.induct)
  case (1 d r n b)
  show ?case
  proof (cases "\<not> isEligible d (h_id h) \<and> n < maxAttempts")
    case True
    define h2 where "h2 = (if length nameMapping = 4 then
                     (case findHouseByName (houses d) (nameMapping ! nat (segmentIndex (b + (fst (r n) * 360 + snd (r n))) mod 4)) of
                        Some house2 \<Rightarrow> house2 | None \<Rightarrow> h)
                   else if nat (segmentIndex (b + (fst (r n) * 360 + snd (r n))) mod int (length (houses d))) < length (houses d)
                     then houses d ! nat (segmentIndex (b + (fst (r n) * 360 + snd (r n))) mod int (length (houses d)))
                     else h)"
    have step: "respin d r n b (Some h) = respin d r (Suc n) (b + (fst (r n) * 360 + snd (r n))) (Some h2)"
      using True by (subst respin.simps) (simp add: Let_def h2_def)
    from 1(1)[OF refl True refl refl refl, of h2] 1(2) step
    show ?thesis by (simp add: h2_def Let_def)
  next
    case False
    then have "respin d r n b (Some h) = (Some h, b, n)" by (subst respin.simps) auto
    with 1(2) False show ?thesis by auto
  qed
qed

lemma count_updateFirst_other:
  "hid \<noteq> k \<Longrightarrow>
   length (filter (\<lambda>s. s_houseId s = Some hid) (updateFirst p (\<lambda>s. s\<lparr>s_houseId := Some k\<rparr>) ss))
     \<le> length (filter (\<lambda>s. s_houseId s = Some hid) ss)"
  by (induction ss) auto

lemma final_check_iff:
  "(case getLimit d hid of None \<Rightarrow> False | Some None \<Rightarrow> False
    | Some (Some lim) \<Rightarrow> geqNumber (getCount d hid) lim)
     \<longleftrightarrow> \<not> isEligible d hid"
  by (auto simp: isEligible_def geq_not_less split: option.splits)

lemma getLimit_load [simp]: "getLimit (loadData st) hid = getLimit (localStorage st) hid"
  by (simp add: getLimit_def)

lemma getCount_load [simp]: "getCount (loadData st) hid = getCount (localStorage st) hid"
  by (simp add: getCount_def)

lemma isEligible_load [simp]: "isEligible (loadData st) hid = isEligible (localStorage st) hid"
  by (simp add: isEligible_def split: option.splits)

lemma spinWheel_eq:
  "spinWheel spins randAngle redraw selectStu st =
     (case getCurrentUser st of
        None \<Rightarrow> ([], st)
      | Some currentUser \<Rightarrow>
          if u_role currentUser \<noteq> ''admin'' then ([], st)
          else if houses (localStorage st) = [] \<or> students (localStorage st) = [] then ([], st)
          else
            (case (spinSelected spins randAngle redraw (loadData st),
                   (case selectStu of None \<Rightarrow> None
                    | Some sid \<Rightarrow> find (\<lambda>s. s_id s = sid) (students (localStorage st)))) of
               (Some h, Some stu) \<Rightarrow>
                 if \<not> isEligible (localStorage st) (h_id h) then ([], st)
                 else (s_name stu @ '' sorted into '' @ h_name h @ ''!'',
                       st\<lparr>localStorage := (loadData st)\<lparr>students :=
                          updateFirst (\<lambda>s. s_id s = s_id stu) (\<lambda>s. s\<lparr>s_houseId := Some (h_id h)\<rparr>)
                            (students (localStorage st))\<rparr>\<rparr>)
             | _ \<Rightarrow> ([], st)))"
  unfolding spinWheel_def Let_def final_check_iff
  by (simp add: saveData_def split: option.splits)

lemma spinWheel_full_house:
  assumes "getLimit (localStorage st) hid = Some (Some lim)"
    "geqNumber (getCount (localStorage st) hid) lim"
  shows "getCount (localStorage (snd (spinWheel spins randAngle redraw selectStu st))) hid
           \<le> getCount (localStorage st) hid"
proof -
  have ne: "\<not> isEligible (localStorage st) hid"
    using assms by (simp add: isEligible_def geq_not_less)
  have other: "getCount ((loadData st)\<lparr>students :=
                   updateFirst p (\<lambda>s. s\<lparr>s_houseId := Some (h_id h)\<rparr>) (students (localStorage st))\<rparr>) hid
                 \<le> getCount (localStorage st) hid"
    if "isEligible (localStorage st) (h_id h)" for h :: house and p
  proof -
    from that ne have "hid \<noteq> h_id h" by auto
    then show ?thesis by (simp add: getCount_def count_updateFirst_other)
  qed
  show ?thesis unfolding spinWheel_eq
    by (auto split: option.splits simp: other)
qed

lemma spinWheel_ineligible:
  "spinSelected spins randAngle redraw (loadData st) = Some h
    \<Longrightarrow> \<not> isEligible (loadData st) (h_id h)
    \<Longrightarrow> spinWheel spins randAngle redraw selectStu st = ([], st)"
  unfolding spinWheel_eq by (auto split: option.splits)

lemma spinWheel_silent:
  "fst (spinWheel spins randAngle redraw selectStu st) = []
     \<Longrightarrow> snd (spinWheel spins randAngle redraw selectStu st) = st"
  unfolding spinWheel_eq by (auto split: option.splits if_splits)

lemma spinWheel_announced:
  "fst (spinWheel spins randAngle redraw selectStu st) \<noteq> []
     \<Longrightarrow> \<exists>h stu sid. spinSelected spins randAngle redraw (loadData st) = Some h
            \<and> isEligible (loadData st) (h_id h)
            \<and> selectStu = Some sid
            \<and> find (\<lambda>s. s_id s = sid) (students (localStorage st)) = Some stu
            \<and> spinWheel spins randAngle redraw selectStu st
                = (s_name stu @ '' sorted into '' @ h_name h @ ''!'',
                   st\<lparr>localStorage := (loadData st)\<lparr>students :=
                      updateFirst (\<lambda>s. s_id s = s_id stu) (\<lambda>s. s\<lparr>s_houseId := Some (h_id h)\<rparr>)
                        (students (localStorage st))\<rparr>\<rparr>)"
  unfolding spinWheel_eq by (auto split: option.splits if_splits)

lemma spinAttempts_first_redraw:
  assumes "resolveHouse (houses d) (spins * 360 + randAngle) = Some h0"
    and "\<not> isEligible d (h_id h0)"
    and "findHouseByName (houses d)
           (nameMapping ! nat (segmentIndex
              (spins * 360 + randAngle + (fst (redraw 0) * 360 + snd (redraw 0))))) = Some h1"
    and "isEligible d (h_id h1)"
  shows "spinSelected spins randAngle redraw d = Some h1
         \<and> spinAttempts spins randAngle redraw d = 1"
  using assms
  by (simp add: spinSelected_def spinAttempts_def respin_step[OF assms(2)] respin_stop)

lemma spinAttempts_bound: "spinAttempts spins randAngle redraw d \<le> 20"
  using respin_bound[of 0 d redraw "spins * 360 + randAngle"
      "resolveHouse (houses d) (spins * 360 + randAngle)"]
  by (simp add: spinAttempts_def maxAttempts_def)

lemma spinAttempts_eligible:
  "resolveHouse (houses d) (spins * 360 + randAngle) = Some h \<Longrightarrow> isEligible d (h_id h)
     \<Longrightarrow> spinAttempts spins randAngle redraw d = 0 \<and> spinSelected spins randAngle redraw d = Some h"
  by (simp add: spinAttempts_def spinSelected_def respin_eligible)

lemma spinAttempts_exhausted:
  assumes "spinSelected spins randAngle redraw d = Some h" "\<not> isEligible d (h_id h)"
  shows "spinAttempts spins randAngle redraw d = 20"
proof -
  obtain h0 where h0: "resolveHouse (houses d) (spins * 360 + randAngle) = Some h0"
    using assms(1) by (cases "resolveHouse (houses d) (spins * 360 + randAngle)")
      (simp_all add: spinSelected_def)
  from respin_result[of d redraw 0 "spins * 360 + randAngle" h0 h] assms h0
  have "maxAttempts \<le> spinAttempts spins randAngle redraw d"
    by (simp add: spinSelected_def spinAttempts_def)
  with spinAttempts_bound[of spins randAngle redraw d] show ?thesis
    by (simp add: maxAttempts_def)
qed

text \<open>
  Claim C5, as the code has it. A house is eligible exactly when no limit is stored for
  it, the stored limit does not read as a number, or its count is below the limit as
  read; the limit is read by \<open>parseInt\<close> from the text of the stored value, which gives
  a stored number below \<open>10 ^ 21\<close> back. A spin never adds a student to a house whose
  count has reached its limit. While the selected house is not eligible and fewer than
  20 redraws were made, the loop redraws: it adds the rotations and the angle of the next
  random draw to the cumulative angle and selects the house named by the segment of the
  new angle, keeping the selected house when no house has that name; it stops as soon as
  the selected house is eligible or 20 redraws were made. When the house selected at the
  end is still not eligible, which needs all 20 redraws, nothing is stored and the result
  line stays empty: the code announces nothing, neither a house nor a failure. Whenever
  the result line stays empty the state is unchanged, and whenever it is written the
  selected student was assigned to the announced house, which was eligible.
\<close>

theorem spinWheel_capacity:
  "(isEligible d hid \<longleftrightarrow>
      (\<forall>lim. getLimit d hid = Some (Some lim) \<longrightarrow> lessNumber (getCount d hid) lim))
   \<and> (map_of (houseLimits d) hid = None \<longrightarrow> getLimit d hid = None)
   \<and> (map_of (houseLimits d) hid = Some None \<longrightarrow> getLimit d hid = Some None)
   \<and> (\<forall>l. map_of (houseLimits d) hid = Some (Some l) \<and> isDouble l \<and> 0 \<le> l \<and> l < 10 ^ 21
         \<longrightarrow> getLimit d hid = Some (Some (Finite l)))
   \<and> (\<forall>lim. getLimit (localStorage st) hid = Some (Some lim)
              \<and> geqNumber (getCount (localStorage st) hid) lim
         \<longrightarrow> getCount (localStorage (snd (spinWheel spins randAngle redraw selectStu st))) hid
               \<le> getCount (localStorage st) hid)
   \<and> spinAttempts spins randAngle redraw d \<le> 20
   \<and> (\<forall>h. resolveHouse (houses d) (spins * 360 + randAngle) = Some h \<and> isEligible d (h_id h)
         \<longrightarrow> spinAttempts spins randAngle redraw d = 0
             \<and> spinSelected spins randAngle redraw d = Some h)
   \<and> (\<forall>h n b. \<not> isEligible d (h_id h) \<and> n < 20
         \<longrightarrow> respin d redraw n b (Some h) =
               respin d redraw (Suc n) (b + (fst (redraw n) * 360 + snd (redraw n)))
                 (Some (case findHouseByName (houses d)
                               (nameMapping ! nat (segmentIndex
                                  (b + (fst (redraw n) * 360 + snd (redraw n))))) of
                          Some house2 \<Rightarrow> house2
                        | None \<Rightarrow> h)))
   \<and> (\<forall>h n b. isEligible d (h_id h) \<or> 20 \<le> n
         \<longrightarrow> respin d redraw n b (Some h) = (Some h, b, n))
   \<and> (\<forall>h0 h1. resolveHouse (houses d) (spins * 360 + randAngle) = Some h0
              \<and> \<not> isEligible d (h_id h0)
              \<and> findHouseByName (houses d)
                    (nameMapping ! nat (segmentIndex
                       (spins * 360 + randAngle + (fst (redraw 0) * 360 + snd (redraw 0)))))
                  = Some h1
              \<and> isEligible d (h_id h1)
         \<longrightarrow> spinSelected spins randAngle redraw d = Some h1
             \<and> spinAttempts spins randAngle redraw d = 1)
   \<and> (\<forall>h. spinSelected spins randAngle redraw d = Some h \<and> \<not> isEligible d (h_id h)
         \<longrightarrow> spinAttempts spins randAngle redraw d = 20)
   \<and> (\<forall>h. spinSelected spins randAngle redraw (loadData st) = Some h
            \<and> \<not> isEligible (loadData st) (h_id h)
         \<longrightarrow> spinWheel spins randAngle redraw selectStu st = ([], st))
   \<and> (fst (spinWheel spins randAngle redraw selectStu st) = []
         \<longrightarrow> snd (spinWheel spins randAngle redraw selectStu st) = st)
   \<and> (fst (spinWheel spins randAngle redraw selectStu st) \<noteq> []
         \<longrightarrow> (\<exists>h stu sid. spinSelected spins randAngle redraw (loadData st) = Some h
                  \<and> isEligible (loadData st) (h_id h)
                  \<and> selectStu = Some sid
                  \<and> find (\<lambda>s. s_id s = sid) (students (localStorage st)) = Some stu
                  \<and> spinWheel spins randAngle redraw selectStu st
                      = (s_name stu @ '' sorted into '' @ h_name h @ ''!'',
                         st\<lparr>localStorage := (loadData st)\<lparr>students :=
                            updateFirst (\<lambda>s. s_id s = s_id stu)
                              (\<lambda>s. s\<lparr>s_houseId := Some (h_id h)\<rparr>)
                              (students (localStorage st))\<rparr>\<rparr>)))"
proof (intro conjI)
  show "isEligible d hid \<longleftrightarrow>
      (\<forall>lim. getLimit d hid = Some (Some lim) \<longrightarrow> lessNumber (getCount d hid) lim)"
    by (rule isEligible_iff)
  show "map_of (houseLimits d) hid = None \<longrightarrow> getLimit d hid = None"
    by (simp add: getLimit_none)
  show "map_of (houseLimits d) hid = Some None \<longrightarrow> getLimit d hid = Some None"
    by (simp add: getLimit_nan)
  show "\<forall>l. map_of (houseLimits d) hid = Some (Some l) \<and> isDouble l \<and> 0 \<le> l \<and> l < 10 ^ 21
         \<longrightarrow> getLimit d hid = Some (Some (Finite l))"
    using getLimit_stored[of d hid] by blast
  show "\<forall>lim. getLimit (localStorage st) hid = Some (Some lim)
              \<and> geqNumber (getCount (localStorage st) hid) lim
         \<longrightarrow> getCount (localStorage (snd (spinWheel spins randAngle redraw selectStu st))) hid
               \<le> getCount (localStorage st) hid"
    using spinWheel_full_house[of st hid _ spins randAngle redraw selectStu] by blast
  show "spinAttempts spins randAngle redraw d \<le> 20"
    by (rule spinAttempts_bound)
  show "\<forall>h. resolveHouse (houses d) (spins * 360 + randAngle) = Some h \<and> isEligible d (h_id h)
         \<longrightarrow> spinAttempts spins randAngle redraw d = 0
             \<and> spinSelected spins randAngle redraw d = Some h"
    using spinAttempts_eligible[of d spins randAngle _ redraw] by blast
  show "\<forall>h n b. \<not> isEligible d (h_id h) \<and> n < 20
         \<longrightarrow> respin d redraw n b (Some h) =
               respin d redraw (Suc n) (b + (fst (redraw n) * 360 + snd (redraw n)))
                 (Some (case findHouseByName (houses d)
                               (nameMapping ! nat (segmentIndex
                                  (b + (fst (redraw n) * 360 + snd (redraw n))))) of
                          Some house2 \<Rightarrow> house2
                        | None \<Rightarrow> h))"
    using respin_step[of d _ _ redraw] by blast
  show "\<forall>h n b. isEligible d (h_id h) \<or> 20 \<le> n
         \<longrightarrow> respin d redraw n b (Some h) = (Some h, b, n)"
    using respin_stop[of d _ _ redraw] by blast
  show "\<forall>h0 h1. resolveHouse (houses d) (spins * 360 + randAngle) = Some h0
              \<and> \<not> isEligible d (h_id h0)
              \<and> findHouseByName (houses d)
                    (nameMapping ! nat (segmentIndex
                       (spins * 360 + randAngle + (fst (redraw 0) * 360 + snd (redraw 0)))))
                  = Some h1
              \<and> isEligible d (h_id h1)
         \<longrightarrow> spinSelected spins randAngle redraw d = Some h1
             \<and> spinAttempts spins randAngle redraw d = 1"
    using spinAttempts_first_redraw[of d spins randAngle _ redraw] by blast
  show "\<forall>h. spinSelected spins randAngle redraw d = Some h \<and> \<not> isEligible d (h_id h)
         \<longrightarrow> spinAttempts spins randAngle redraw d = 20"
    using spinAttempts_exhausted[of spins randAngle redraw d] by blast
  show "\<forall>h. spinSelected spins randAngle redraw (loadData st) = Some h
            \<and> \<not> isEligible (loadData st) (h_id h)
         \<longrightarrow> spinWheel spins randAngle redraw selectStu st = ([], st)"
    using spinWheel_ineligible[of spins randAngle redraw st _ selectStu] by blast
  show "fst (spinWheel spins randAngle redraw selectStu st) = []
         \<longrightarrow> snd (spinWheel spins randAngle redraw selectStu st) = st"
    using spinWheel_silent[of spins randAngle redraw selectStu st] by blast
  show "fst (spinWheel spins randAngle redraw selectStu st) \<noteq> []
         \<longrightarrow> (\<exists>h stu sid. spinSelected spins randAngle redraw (loadData st) = Some h
                  \<and> isEligible (loadData st) (h_id h)
                  \<and> selectStu = Some sid
                  \<and> find (\<lambda>s. s_id s = sid) (students (localStorage st)) = Some stu
                  \<and> spinWheel spins randAngle redraw selectStu st
                      = (s_name stu @ '' sorted into '' @ h_name h @ ''!'',
                         st\<lparr>localStorage := (loadData st)\<lparr>students :=
                            updateFirst (\<lambda>s. s_id s = s_id stu)
                              (\<lambda>s. s\<lparr>s_houseId := Some (h_id h)\<rparr>)
                              (students (localStorage st))\<rparr>\<rparr>))"
    using spinWheel_announced[of spins randAngle redraw selectStu st] by blast
qed

text \<open>
  The theorem in the school where Darwin is full and Curie has room. The stored limit 1
  of Darwin is read as 1 and is reached, so Darwin's count does not grow when Bob is
  spun. The first spin stops on Darwin; the first redraw, one rotation and 200 degrees
  further, stops on the segment of Curie, which is eligible: the loop ends after one
  redraw and Bob is sorted into Curie.
\<close>

theorem spinWheel_capacity_witness:
  "map_of (houseLimits (localStorage fullDarwinState)) 2 = Some (Some 1)
   \<and> isDouble 1
   \<and> getLimit (localStorage fullDarwinState) 2 = Some (Some (Finite 1))
   \<and> getCount (localStorage fullDarwinState) 2 = 1
   \<and> getCount (localStorage (snd (spinWheel 4 0 toCurie (Some 3) fullDarwinState))) 2 \<le> 1
   \<and> resolveHouse (houses (localStorage fullDarwinState)) (4 * 360 + 0) = Some darwin
   \<and> \<not> isEligible (localStorage fullDarwinState) (h_id darwin)
   \<and> toCurie 0 = (1, 200)
   \<and> segmentIndex (4 * 360 + 0 + (1 * 360 + 200)) = 1
   \<and> findHouseByName (houses (localStorage fullDarwinState))
         (nameMapping ! nat (segmentIndex (4 * 360 + 0 + (1 * 360 + 200)))) = Some curie
   \<and> isEligible (localStorage fullDarwinState) (h_id curie)
   \<and> spinSelected 4 0 toCurie (localStorage fullDarwinState) = Some curie
   \<and> spinAttempts 4 0 toCurie (localStorage fullDarwinState) = 1
   \<and> spinWheel 4 0 toCurie (Some 3) fullDarwinState
       = (''Bob sorted into Curie!'',
          fullDarwinState\<lparr>localStorage := (localStorage fullDarwinState)
             \<lparr>students := [ann, cyd, bob\<lparr>s_houseId := Some 1\<rparr>]\<rparr>\<rparr>)"
proof -
  let ?d = "localStorage fullDarwinState"
  have m: "map_of (houseLimits ?d) 2 = Some (Some 1)" by code_simp
  have i: "isDouble 1" by code_simp
  have c: "getCount ?d 2 = 1" by code_simp
  have r: "resolveHouse (houses ?d) (4 * 360 + 0) = Some darwin" by code_simp
  have n: "\<not> isEligible ?d (h_id darwin)" by code_simp
  have t: "toCurie 0 = (1, 200)" by (simp add: toCurie_def)
  have s: "segmentIndex (4 * 360 + 0 + (1 * 360 + 200)) = 1" by code_simp
  have f: "findHouseByName (houses ?d)
         (nameMapping ! nat (segmentIndex (4 * 360 + 0 + (1 * 360 + 200)))) = Some curie"
    by code_simp
  have e: "isEligible ?d (h_id curie)" by code_simp
  have w: "spinWheel 4 0 toCurie (Some 3) fullDarwinState
       = (''Bob sorted into Curie!'',
          fullDarwinState\<lparr>localStorage := (localStorage fullDarwinState)
             \<lparr>students := [ann, cyd, bob\<lparr>s_houseId := Some 1\<rparr>]\<rparr>\<rparr>)"
    by code_simp
  note th = spinWheel_capacity[where st = fullDarwinState and hid = 2 and spins = 4
      and randAngle = 0 and redraw = toCurie and selectStu = "Some 3" and d = ?d]
  have l: "getLimit ?d 2 = Some (Some (Finite 1))" using th m i by simp
  have g0: "geqNumber (getCount ?d 2) (Finite 1)" by (simp add: c)
  have g: "getCount (localStorage (snd (spinWheel 4 0 toCurie (Some 3) fullDarwinState))) 2 \<le> 1"
    using th l g0 c by simp
  have f': "findHouseByName (houses ?d)
         (nameMapping ! nat (segmentIndex
            (4 * 360 + 0 + (fst (toCurie 0) * 360 + snd (toCurie 0))))) = Some curie"
    using f by (simp add: t)
  have "spinSelected 4 0 toCurie ?d = Some curie \<and> spinAttempts 4 0 toCurie ?d = 1"
    using th r n f' e by blast
  with m i l c g r n t s f e w show ?thesis by blast
qed

text \<open>
  Nothing is reported when the retry budget is exhausted. Darwin, the only house, is
  full; spinning Bob redraws 20 times and ends on Darwin; the result line is empty and
  the state is the one before the spin.
\<close>

theorem spinWheel_exhausted_is_silent:
  "spinSelected 4 0 sameSegment (localStorage cappedState) = Some darwin
   \<and> \<not> isEligible (localStorage cappedState) (h_id darwin)
   \<and> spinAttempts 4 0 sameSegment (localStorage cappedState) = 20
   \<and> spinWheel 4 0 sameSegment (Some 2) cappedState = ([], cappedState)"
  by code_simp

subsection \<open>The sorting wheel and the house balance\<close>

text \<open>
  Deleting a student does move the points: without Ann, Curie is back at 0 points and the
  house balance holds.
\<close>

lemma deleteStudent_example:
  "students (localStorage (deleteStudent 1 schoolState)) = []
   \<and> map h_points (houses (localStorage (deleteStudent 1 schoolState))) = [0, 0]
   \<and> housesBalanced (localStorage (deleteStudent 1 schoolState))"
  by code_simp

text \<open>
  Claim C1 at a spin in the small school. Both balances hold before. Spinning Ann, who has
  5 points and belongs to Curie, sorts her into Darwin; the handler sets her \<open>houseId\<close>
  and stores the document without touching a house. Curie keeps 5 points with no member
  and Darwin keeps 0 points with a member who has 5: the house balance is broken.
\<close>

theorem spinWheel_breaks_house_balance:
  "housesBalanced (localStorage schoolState) \<and> studentsBalanced (localStorage schoolState)
   \<and> fst (spinWheel 4 0 sameSegment (Some 1) schoolState) = ''Ann sorted into Darwin!''
   \<and> students (localStorage (snd (spinWheel 4 0 sameSegment (Some 1) schoolState)))
       = [ann\<lparr>s_houseId := Some 2\<rparr>]
   \<and> houses (localStorage (snd (spinWheel 4 0 sameSegment (Some 1) schoolState)))
       = [curie, darwin]
   \<and> h_points curie = 5
   \<and> memberPoints (localStorage (snd (spinWheel 4 0 sameSegment (Some 1) schoolState))) 1 = 0
   \<and> h_points darwin = 0
   \<and> memberPoints (localStorage (snd (spinWheel 4 0 sameSegment (Some 1) schoolState))) 2 = 5
   \<and> \<not> housesBalanced (localStorage (snd (spinWheel 4 0 sameSegment (Some 1) schoolState)))"
  by code_simp

subsection \<open>The counters stay ahead of the identifiers in use\<close>

text \<open>
  \<open>countersAhead\<close>, the assumption on the document in the theorems on creation, holds
  initially and is kept by every handler modelled here (by the add-student form when the
  selected house is one of the document). It implies that no ledger entry already has the
  next transaction id, the assumption of the theorem on posting and reversing.
\<close>

lemma countersAhead_initData: "countersAhead initData"
  by (simp add: countersAhead_def initData_def)

lemma countersAhead_load [simp]: "countersAhead (loadData st) = countersAhead (localStorage st)"
  by (simp add: countersAhead_def)

lemma list_all_updateFirst:
  "list_all P xs \<Longrightarrow> (\<And>x. P x \<Longrightarrow> P (f x)) \<Longrightarrow> list_all P (updateFirst p f xs)"
  by (induction xs) auto

lemma list_all_splice1: "list_all P xs \<Longrightarrow> list_all P (splice1 i xs)"
  by (auto simp: splice1_def list_all_iff dest: in_set_takeD in_set_dropD)

lemma list_all_mono: "list_all P xs \<Longrightarrow> (\<And>x. P x \<Longrightarrow> Q x) \<Longrightarrow> list_all Q xs"
  by (auto simp: list_all_iff)

lemma addStudentPoints_keeps:
  "list_all (\<lambda>s. s_id s < n \<and> houseKnown m (s_houseId s)) ss
     \<Longrightarrow> list_all (\<lambda>s. s_id s < n \<and> houseKnown m (s_houseId s))
           (addStudentPoints sid a ss)"
  unfolding addStudentPoints_def by (rule list_all_updateFirst) simp_all

lemma addHousePoints_keeps:
  "list_all (\<lambda>h. h_id h < m) hs \<Longrightarrow> list_all (\<lambda>h. h_id h < m) (addHousePoints hid a hs)"
  unfolding addHousePoints_def by (cases hid) (simp_all add: list_all_updateFirst)

lemma countersAhead_fresh:
  "countersAhead d \<Longrightarrow> \<forall>t\<in>set (transactions d). t_id t \<noteq> nextTransactionId d"
  by (auto simp: countersAhead_def list_all_iff)

lemma countersAhead_submit:
  assumes "countersAhead (localStorage st)"
  shows "countersAhead (localStorage (snd (submitAwardForm studentId amountInput noteInput mode now st)))"
proof (cases "\<exists>txn st'. submitAwardForm studentId amountInput noteInput mode now st = (Inr txn, st')")
  case False
  then have "snd (submitAwardForm studentId amountInput noteInput mode now st) = st"
    by (auto simp: submitAwardForm_def Let_def split: option.splits if_splits)
  with assms show ?thesis by simp
next
  case True
  then obtain sid amount0 student u where
    i: "studentId = Some sid" "amountInput = Some amount0" "sid \<noteq> 0" "trim noteInput \<noteq> []"
      "find (\<lambda>s. s_id s = sid) (students (localStorage st)) = Some student"
      "sessionStorage st = Some u"
    by (auto simp: submitAwardForm_def Let_def getCurrentUser_def split: option.splits if_splits)
  have stu: "student \<in> set (students (localStorage st))" "s_id student = sid"
    using i(5) by (auto simp: find_Some_iff)
  from assms have
    t: "list_all (\<lambda>t. t_id t < nextTransactionId (localStorage st)
            \<and> t_studentId t < nextStudentId (localStorage st)) (transactions (localStorage st))"
    and s: "list_all (\<lambda>s. s_id s < nextStudentId (localStorage st)
            \<and> houseKnown (nextHouseId (localStorage st)) (s_houseId s))
          (students (localStorage st))"
    and h: "list_all (\<lambda>h. h_id h < nextHouseId (localStorage st)) (houses (localStorage st))"
    by (simp_all add: countersAhead_def)
  have sidlt: "sid < nextStudentId (localStorage st)" using s stu by (auto simp: list_all_iff)
  have t': "list_all (\<lambda>t. t_id t < nextTransactionId (localStorage st) + 1
            \<and> t_studentId t < nextStudentId (localStorage st)) (transactions (localStorage st))"
    by (rule list_all_mono[OF t]) simp
  show ?thesis
    using i stu sidlt t' addStudentPoints_keeps[OF s] addHousePoints_keeps[OF h]
    by (simp add: submitAwardForm_def Let_def getCurrentUser_def saveData_def countersAhead_def)
qed

lemma countersAhead_delete:
  assumes "countersAhead (localStorage st)"
  shows "countersAhead (localStorage (snd (deleteTransaction txnId st)))"
proof -
  from assms have
    t: "list_all (\<lambda>t. t_id t < nextTransactionId (localStorage st)
            \<and> t_studentId t < nextStudentId (localStorage st)) (transactions (localStorage st))"
    and s: "list_all (\<lambda>s. s_id s < nextStudentId (localStorage st)
            \<and> houseKnown (nextHouseId (localStorage st)) (s_houseId s))
          (students (localStorage st))"
    and h: "list_all (\<lambda>h. h_id h < nextHouseId (localStorage st)) (houses (localStorage st))"
    by (simp_all add: countersAhead_def)
  show ?thesis
    using assms list_all_splice1[OF t] addStudentPoints_keeps[OF s] addHousePoints_keeps[OF h]
    by (simp add: deleteTransaction_def Let_def saveData_def countersAhead_def split: option.splits)
qed

lemma countersAhead_addHouse:
  assumes "countersAhead (localStorage st)"
  shows "countersAhead (localStorage (snd (addHouse houseName houseColor logoData st)))"
proof -
  from assms have
    s: "list_all (\<lambda>s. s_id s < nextStudentId (localStorage st)
            \<and> houseKnown (nextHouseId (localStorage st)) (s_houseId s))
          (students (localStorage st))"
    and h: "list_all (\<lambda>h. h_id h < nextHouseId (localStorage st)) (houses (localStorage st))"
    by (simp_all add: countersAhead_def)
  have s': "list_all (\<lambda>s. s_id s < nextStudentId (localStorage st)
            \<and> houseKnown (nextHouseId (localStorage st) + 1) (s_houseId s))
          (students (localStorage st))"
    by (rule list_all_mono[OF s]) (auto simp: houseKnown_def split: option.splits)
  have h': "list_all (\<lambda>h. h_id h < nextHouseId (localStorage st) + 1) (houses (localStorage st))"
    by (rule list_all_mono[OF h]) simp
  show ?thesis using assms s' h'
    by (simp add: addHouse_def Let_def saveData_def countersAhead_def)
qed

lemma countersAhead_addStudent:
  assumes "countersAhead (localStorage st)"
    and "houseKnown (nextHouseId (localStorage st)) studentHouse"
  shows "countersAhead (localStorage (addStudent studentName studentGrade studentHouse st))"
proof -
  from assms have
    t: "list_all (\<lambda>t. t_id t < nextTransactionId (localStorage st)
            \<and> t_studentId t < nextStudentId (localStorage st)) (transactions (localStorage st))"
    and s: "list_all (\<lambda>s. s_id s < nextStudentId (localStorage st)
            \<and> houseKnown (nextHouseId (localStorage st)) (s_houseId s))
          (students (localStorage st))"
    by (simp_all add: countersAhead_def)
  have t': "list_all (\<lambda>t. t_id t < nextTransactionId (localStorage st)
            \<and> t_studentId t < nextStudentId (localStorage st) + 1) (transactions (localStorage st))"
    by (rule list_all_mono[OF t]) simp
  have s': "list_all (\<lambda>s. s_id s < nextStudentId (localStorage st) + 1
            \<and> houseKnown (nextHouseId (localStorage st)) (s_houseId s))
          (students (localStorage st))"
    by (rule list_all_mono[OF s]) simp
  show ?thesis using assms t' s'
    by (simp add: addStudent_def Let_def saveData_def countersAhead_def)
qed

lemma countersAhead_deleteStudent:
  assumes "countersAhead (localStorage st)"
  shows "countersAhead (localStorage (deleteStudent studentId st))"
proof -
  from assms have
    s: "list_all (\<lambda>s. s_id s < nextStudentId (localStorage st)
            \<and> houseKnown (nextHouseId (localStorage st)) (s_houseId s))
          (students (localStorage st))"
    and h: "list_all (\<lambda>h. h_id h < nextHouseId (localStorage st)) (houses (localStorage st))"
    by (simp_all add: countersAhead_def)
  have s': "list_all (\<lambda>s. s_id s < nextStudentId (localStorage st)
            \<and> houseKnown (nextHouseId (localStorage st)) (s_houseId s))
          (filter p (students (localStorage st)))" for p
    using s by (auto simp: list_all_iff)
  show ?thesis using assms s' addHousePoints_keeps[OF h]
    by (simp add: deleteStudent_def Let_def saveData_def countersAhead_def split: option.splits)
qed

lemma resolveHouse_in: "resolveHouse hs a = Some h \<Longrightarrow> h \<in> set hs"
proof -
  assume r: "resolveHouse hs a = Some h"
  show ?thesis
  proof (cases "find (\<lambda>h. toLowerCase (h_name h) = toLowerCase (nameMapping ! nat (segmentIndex a))) hs")
    case (Some h')
    then have "h' \<in> set hs" by (auto simp: find_Some_iff)
    with r Some show ?thesis by (simp add: resolveHouse_eq)
  next
    case None
    with r have ne: "hs \<noteq> []" and h: "h = hs ! nat (segmentIndex a mod int (length hs))"
      by (auto simp: resolveHouse_eq split: if_splits)
    have "0 \<le> segmentIndex a mod int (length hs)" "segmentIndex a mod int (length hs) < int (length hs)"
      using ne by simp_all
    then have "nat (segmentIndex a mod int (length hs)) < length hs" by linarith
    with h show ?thesis by simp
  qed
qed

lemma respin_in:
  "h0 \<in> set (houses d) \<Longrightarrow> fst (respin d r n b (Some h0)) = Some h \<Longrightarrow> h \<in> set (houses d)"
proof (induction d r n b "Some h0" arbitrary: h0 rule: respin.induct)
  case (1 d r n b)
  show ?case
  proof (cases "\<not> isEligible d (h_id h0) \<and> n < maxAttempts")
    case True
    define h2 where "h2 = (if length nameMapping = 4 then
                     (case findHouseByName (houses d) (nameMapping ! nat (segmentIndex (b + (fst (r n) * 360 + snd (r n))) mod 4)) of
                        Some house2 \<Rightarrow> house2 | None \<Rightarrow> h0)
                   else if nat (segmentIndex (b + (fst (r n) * 360 + snd (r n))) mod int (length (houses d))) < length (houses d)
                     then houses d ! nat (segmentIndex (b + (fst (r n) * 360 + snd (r n))) mod int (length (houses d)))
                     else h0)"
    have step: "respin d r n b (Some h0) = respin d r (Suc n) (b + (fst (r n) * 360 + snd (r n))) (Some h2)"
      using True by (subst respin.simps) (simp add: Let_def h2_def)
    have in2: "h2 \<in> set (houses d)"
      using 1(2) by (auto simp: h2_def findHouseByName_def find_Some_iff split: option.splits)
    from 1(1)[OF refl True refl refl refl, of h2] in2 1(3) step
    show ?thesis by (simp add: h2_def Let_def)
  next
    case False
    then have "respin d r n b (Some h0) = (Some h0, b, n)" by (subst respin.simps) auto
    with 1(2,3) show ?thesis by simp
  qed
qed

lemma spinSelected_in:
  "spinSelected spins randAngle redraw d = Some h \<Longrightarrow> h \<in> set (houses d)"
proof -
  assume s: "spinSelected spins randAngle redraw d = Some h"
  then obtain h0 where h0: "resolveHouse (houses d) (spins * 360 + randAngle) = Some h0"
    by (cases "resolveHouse (houses d) (spins * 360 + randAngle)") (simp_all add: spinSelected_def)
  from respin_in[OF resolveHouse_in[OF h0], of redraw 0 "spins * 360 + randAngle" h] s h0
  show ?thesis by (simp add: spinSelected_def)
qed

lemma countersAhead_spinWheel:
  assumes "countersAhead (localStorage st)"
  shows "countersAhead (localStorage (snd (spinWheel spins randAngle redraw selectStu st)))"
proof -
  from assms have
    s: "list_all (\<lambda>s. s_id s < nextStudentId (localStorage st)
            \<and> houseKnown (nextHouseId (localStorage st)) (s_houseId s))
          (students (localStorage st))"
    and h: "list_all (\<lambda>h. h_id h < nextHouseId (localStorage st)) (houses (localStorage st))"
    by (simp_all add: countersAhead_def)
  have upd: "list_all (\<lambda>s. s_id s < nextStudentId (localStorage st)
            \<and> houseKnown (nextHouseId (localStorage st)) (s_houseId s))
          (updateFirst p (\<lambda>s. s\<lparr>s_houseId := Some (h_id x)\<rparr>) (students (localStorage st)))"
    if "spinSelected spins randAngle redraw (loadData st) = Some x" for x p
  proof -
    from spinSelected_in[OF that] have "x \<in> set (houses (localStorage st))" by simp
    with h have "h_id x < nextHouseId (localStorage st)" by (auto simp: list_all_iff)
    then show ?thesis
      by (intro list_all_updateFirst[OF s]) (simp add: houseKnown_def)
  qed
  show ?thesis unfolding spinWheel_eq using assms
    by (auto split: option.splits simp: countersAhead_def upd)
qed


end
